theory Spec2Isabelle
  imports Main
begin

section \<open>Strings and the Python built-ins the converter relies on\<close>

text \<open>
  A Python \<open>str\<close> is modelled as a \<open>string\<close>: a list of characters, each standing
  for the Unicode code point of the same number (0 to 255).  The development
  therefore speaks about strings whose code points are below 256.  The
  character classes below are those of CPython for these code points.
\<close>

text \<open>\<open>str.isdigit\<close>: the ten decimal digits and the superscripts one, two, three.\<close>

definition isdigit :: "char \<Rightarrow> bool" where
  "isdigit c = (c \<in> set (''0123456789'' @ [CHR 0xB2, CHR 0xB3, CHR 0xB9]))"

text \<open>The characters that \<open>int\<close> reads as decimal digits.\<close>

definition is_decimal :: "char \<Rightarrow> bool" where
  "is_decimal c = (c \<in> set ''0123456789'')"

text \<open>\<open>str.isspace\<close>, which is what \<open>str.strip()\<close> removes.\<close>

definition isspace :: "char \<Rightarrow> bool" where
  "isspace c = (c \<in> set [CHR 0x09, CHR 0x0A, CHR 0x0B, CHR 0x0C, CHR 0x0D,
                        CHR 0x1C, CHR 0x1D, CHR 0x1E, CHR 0x1F, CHR 0x20,
                        CHR 0x85, CHR 0xA0])"

text \<open>
  The white space that \<open>int\<close> skips around a literal: the C white space, and the
  two non-ASCII spaces below 256.  The separators 0x1C to 0x1F are white space
  for \<open>strip\<close> but not for \<open>int\<close>.
\<close>

definition int_space :: "char \<Rightarrow> bool" where
  "int_space c = (c \<in> set [CHR 0x09, CHR 0x0A, CHR 0x0B, CHR 0x0C, CHR 0x0D,
                          CHR 0x20, CHR 0x85, CHR 0xA0])"

definition strip :: "string \<Rightarrow> string" where
  "strip s = rev (dropWhile isspace (rev (dropWhile isspace s)))"

text \<open>The exceptions of the program, by the classes its handlers tell apart.\<close>

datatype py_exn =
    ValueError
  | IndexError
  | AttributeError
  | FileNotFoundError
  | XLRDError
  | MemoryError
  | RequestException
  | OtherException string

text \<open>
  \<open>int(s)\<close> in base 10: optional white space, an optional sign, then decimal
  digits that single underscores may separate.  Anything else raises
  \<open>ValueError\<close>.  Python's integers are unbounded; the interpreter's optional
  limit on the length of a literal (\<open>sys.int_max_str_digits\<close>) is a resource limit
  outside this model.
\<close>

definition digit_val :: "char \<Rightarrow> int" where
  "digit_val c = int (of_char c) - 48"

definition dec :: "string \<Rightarrow> int" where
  "dec ds = foldl (\<lambda>n c. 10 * n + digit_val c) 0 ds"

fun int_digits :: "string \<Rightarrow> bool" where
  "int_digits [] = False"
| "int_digits [c] = is_decimal c"
| "int_digits (c # d # cs) =
     (is_decimal c \<and> (if d = CHR ''_'' then int_digits cs else int_digits (d # cs)))"

definition py_int :: "string \<Rightarrow> py_exn + int" where
  "py_int s =
     (let t = rev (dropWhile int_space (rev (dropWhile int_space s)));
          neg = (t \<noteq> [] \<and> hd t = CHR ''-'');
          ds = (if t \<noteq> [] \<and> (hd t = CHR ''-'' \<or> hd t = CHR ''+'') then tl t else t)
      in if int_digits ds
         then Inr ((if neg then - 1 else 1) * dec (filter (\<lambda>c. c \<noteq> CHR ''_'') ds))
         else Inl ValueError)"

text \<open>\<open>s.split(sep)\<close> for a one-character separator: never empty, \<open>''.split(',') = ['']\<close>.\<close>

fun split :: "char \<Rightarrow> string \<Rightarrow> string list" where
  "split sep [] = [[]]"
| "split sep (c # cs) =
     (if c = sep then [] # split sep cs
      else (case split sep cs of [] \<Rightarrow> [[c]] | p # ps \<Rightarrow> (c # p) # ps))"

text \<open>\<open>sep.join(parts)\<close> for a one-character separator.\<close>

fun join :: "char \<Rightarrow> string list \<Rightarrow> string" where
  "join sep [] = []"
| "join sep [p] = p"
| "join sep (p # q # ps) = p @ sep # join sep (q # ps)"

section \<open>The range parser\<close>

record range_params =
  usecols :: string
  skiprows :: int
  nrows :: int

text \<open>
  The five local variables of the scanning loop of \<open>excel_range_to_params\<close>
  (\<open>ex2md.py\<close>, lines 13 to 43).
\<close>

record scan_state =
  start_col :: string
  start_row :: string
  end_col :: string
  end_row :: string
  parsing_end_col :: bool

definition scan_init :: scan_state where
  "scan_init = \<lparr>start_col = [], start_row = [], end_col = [], end_row = [],
                 parsing_end_col = False\<rparr>"

text \<open>One iteration of \<open>for char in range_str\<close>.\<close>

definition scan_char :: "scan_state \<Rightarrow> char \<Rightarrow> scan_state" where
  "scan_char st c =
     (if isdigit c then
        (if \<not> parsing_end_col st then st\<lparr>start_row := start_row st @ [c]\<rparr>
         else st\<lparr>end_row := end_row st @ [c]\<rparr>)
      else if c = CHR '':'' then st\<lparr>parsing_end_col := True\<rparr>
      else if \<not> parsing_end_col st then st\<lparr>start_col := start_col st @ [c]\<rparr>
      else st\<lparr>end_col := end_col st @ [c]\<rparr>)"

definition excel_range_to_params :: "string \<Rightarrow> py_exn + range_params" where
  "excel_range_to_params range_str =
     (let st = foldl scan_char scan_init range_str;
          col_range = start_col st @ '':'' @ end_col st
      in case py_int (start_row st) of
           Inl e \<Rightarrow> Inl e
         | Inr a \<Rightarrow>
             (let skip = a - 1
              in case py_int (end_row st) of
                   Inl e \<Rightarrow> Inl e
                 | Inr b \<Rightarrow> Inr \<lparr>usecols = col_range, skiprows = skip, nrows = b - skip\<rparr>))"

text \<open>\<open>range_checker\<close>: attempt the parse, report success.\<close>

definition range_checker :: "string \<Rightarrow> bool" where
  "range_checker range_str =
     (case excel_range_to_params range_str of Inl e \<Rightarrow> False | Inr params \<Rightarrow> True)"

section \<open>Sheet selectors\<close>

text \<open>
  A sheet is named by a string or by an integer; the source keeps both in the
  same dictionary entry and tells them apart with \<open>isinstance\<close>.  The entry
  \<open>'range'\<close> is the empty string when no range was given.
\<close>

datatype ident = Name string | Index int

record sheet_spec =
  sheet :: ident
  range_str :: string

text \<open>
  One item of \<open>parse_sheet_numbers\<close>.  With a hyphen in the item,
  \<open>start, end = map(int, item.split('-'))\<close> needs exactly two parts, both
  integers; every other outcome raises \<open>ValueError\<close> (from \<open>int\<close> or from the
  unpacking).  \<open>range(start, end+1)\<close> is \<open>[start..end]\<close>.
\<close>

definition number_item :: "string \<Rightarrow> py_exn + int list" where
  "number_item item =
     (if CHR ''-'' \<in> set item then
        (case map py_int (split CHR ''-'' item) of
           [Inr start, Inr end_n] \<Rightarrow> Inr [start..end_n]
         | _ \<Rightarrow> Inl ValueError)
      else (case py_int item of Inl e \<Rightarrow> Inl e | Inr n \<Rightarrow> Inr [n]))"

fun numbers_loop :: "int list \<Rightarrow> string list \<Rightarrow> py_exn + int list" where
  "numbers_loop sheets [] = Inr sheets"
| "numbers_loop sheets (item # items) =
     (case number_item item of
        Inl e \<Rightarrow> Inl e
      | Inr ns \<Rightarrow> numbers_loop (sheets @ ns) items)"

definition parse_sheet_numbers :: "string \<Rightarrow> py_exn + sheet_spec list" where
  "parse_sheet_numbers sheet_numbers =
     (case numbers_loop [] (split CHR '','' sheet_numbers) of
        Inl e \<Rightarrow> Inl e
      | Inr sheets \<Rightarrow> Inr (map (\<lambda>n. \<lparr>sheet = Index n, range_str = []\<rparr>) sheets))"

text \<open>
  One item of \<open>parse_sheet_names\<close>.  \<open>sheet, range_str = item.split('!')\<close> raises
  \<open>ValueError\<close> unless there are exactly two parts.
\<close>

definition name_item :: "string \<Rightarrow> py_exn + sheet_spec" where
  "name_item item =
     (if CHR ''!'' \<in> set item then
        (case split CHR ''!'' item of
           [sheet_part, range_part] \<Rightarrow>
             if \<not> range_checker range_part then Inl ValueError
             else Inr \<lparr>sheet = Name (strip sheet_part), range_str = range_part\<rparr>
         | _ \<Rightarrow> Inl ValueError)
      else Inr \<lparr>sheet = Name (strip item), range_str = []\<rparr>)"

fun names_loop :: "sheet_spec list \<Rightarrow> string list \<Rightarrow> py_exn + sheet_spec list" where
  "names_loop sheets [] = Inr sheets"
| "names_loop sheets (item # items) =
     (case name_item item of
        Inl e \<Rightarrow> Inl e
      | Inr sp \<Rightarrow> names_loop (sheets @ [sp]) items)"

definition parse_sheet_names :: "string \<Rightarrow> py_exn + sheet_spec list" where
  "parse_sheet_names sheet_names_arg = names_loop [] (split CHR '','' sheet_names_arg)"

section \<open>Rendering a table\<close>

text \<open>
  A cell of a data frame: a string, a missing value, or another scalar (numbers
  stand for all of them).  A data frame has column labels and rows of cells;
  \<open>applymap\<close> visits the cells of the rows and leaves the labels alone.
\<close>

datatype cell = Str string | Num int | NaN

record dataframe =
  columns :: "cell list"
  rows :: "cell list list"

definition applymap :: "(cell \<Rightarrow> cell) \<Rightarrow> dataframe \<Rightarrow> dataframe" where
  "applymap f df = df\<lparr>rows := map (map f) (rows df)\<rparr>"

definition fill_cell :: "string \<Rightarrow> cell \<Rightarrow> cell" where
  "fill_cell v x = (case x of NaN \<Rightarrow> Str v | _ \<Rightarrow> x)"

definition fillna :: "string \<Rightarrow> dataframe \<Rightarrow> dataframe" where
  "fillna v df = applymap (fill_cell v) df"

text \<open>\<open>x.replace('\n', '<br>')\<close>.\<close>

definition replace_newline :: "string \<Rightarrow> string" where
  "replace_newline x = concat (map (\<lambda>c. if c = CHR 0x0A then ''<br>'' else [c]) x)"

text \<open>The function that \<open>escape_newlines\<close> applies to each cell.\<close>

definition escape_cell :: "cell \<Rightarrow> cell" where
  "escape_cell x = (case x of Str s \<Rightarrow> Str (replace_newline s) | _ \<Rightarrow> x)"

definition escape_newlines :: "dataframe \<Rightarrow> dataframe" where
  "escape_newlines df = applymap escape_cell df"

definition clean_markdown_lines :: "string list \<Rightarrow> string list" where
  "clean_markdown_lines markdown_array =
     map (\<lambda>line. if CHR ''|'' \<in> set line
                 then join CHR ''|'' (map strip (split CHR ''|'' line))
                 else line) markdown_array"

text \<open>
  The pipe-table renderer \<open>tabulate\<close> belongs to a library; it is a parameter
  here, any function from data frames to text.
\<close>

definition convert_to_markdown_array :: "(dataframe \<Rightarrow> string) \<Rightarrow> dataframe \<Rightarrow> string list" where
  "convert_to_markdown_array tabulate_pipe df =
     clean_markdown_lines (split CHR 0x0A (tabulate_pipe (escape_newlines (fillna [] df))))"

section \<open>The world outside: files, the remote API, the spreadsheet reader\<close>

text \<open>One constructor for each logging call of the source, with the values its message shows.\<close>

datatype log_entry =
    Info_saved string string
  | Info_posted string
  | Error_posting string py_exn
  | Error_reading_sheet ident py_exn
  | Error_memory ident
  | Error_sheet_unexpected ident py_exn
  | Error_file_not_found
  | Error_unexpected py_exn

record world =
  files :: "string \<rightharpoonup> string"
  posts :: "(string \<times> string) list"
  log :: "log_entry list"

record workbook =
  wb_path :: string
  sheet_names :: "string list"

text \<open>
  What the libraries do is not part of the program; it is given by an
  environment.  \<open>open_w path encoding\<close> is the exception that
  \<open>open(path, 'w', encoding=encoding, errors='replace')\<close> raises, if any;
  \<open>encodable encoding c\<close> says whether the encoding can represent \<open>c\<close>;
  \<open>requests_post token title content\<close> is the exception that \<open>requests.post\<close> or
  \<open>raise_for_status\<close> raises, if any.  \<open>XLRDError_defined\<close> says whether the
  attribute \<open>pd.errors.XLRDError\<close> exists: Python looks it up when an exception
  reaches the first handler of the sheet loop, and raises \<open>AttributeError\<close>
  there when it is missing.  Exceptions that are not instances of \<open>Exception\<close>
  (a keyboard interrupt, an exit request) are not modelled.
\<close>

record env =
  tabulate :: "dataframe \<Rightarrow> string"
  ExcelFile :: "string \<Rightarrow> py_exn + workbook"
  read_excel :: "workbook \<Rightarrow> string \<Rightarrow> range_params option \<Rightarrow> py_exn + dataframe"
  open_w :: "string \<Rightarrow> string \<Rightarrow> py_exn option"
  encodable :: "string \<Rightarrow> char \<Rightarrow> bool"
  NOTEPM_SECRET :: "string option"
  requests_post :: "string option \<Rightarrow> string \<Rightarrow> string \<Rightarrow> py_exn option"
  XLRDError_defined :: bool

text \<open>\<open>xs[i]\<close> on a Python list: negative indices count from the end.\<close>

definition py_index :: "'a list \<Rightarrow> int \<Rightarrow> py_exn + 'a" where
  "py_index xs i =
     (let n = int (length xs)
      in if 0 \<le> i \<and> i < n then Inr (xs ! nat i)
         else if - n \<le> i \<and> i < 0 then Inr (xs ! nat (n + i))
         else Inl IndexError)"

text \<open>\<open>os.path.basename\<close> with \<open>/\<close> as the separator.\<close>

definition basename :: "string \<Rightarrow> string" where
  "basename p = rev (takeWhile (\<lambda>c. c \<noteq> CHR ''/'') (rev p))"

text \<open>Writing with \<open>errors='replace'\<close>: a question mark stands for what cannot be encoded.\<close>

definition encode_replace :: "env \<Rightarrow> string \<Rightarrow> string \<Rightarrow> string" where
  "encode_replace ev encoding text =
     map (\<lambda>c. if encodable ev encoding c then c else CHR ''?'') text"

section \<open>The output sink\<close>

definition get_secret_from_env :: "env \<Rightarrow> string option" where
  "get_secret_from_env ev = NOTEPM_SECRET ev"

definition post_markdown_to_api ::
  "env \<Rightarrow> string \<Rightarrow> string \<Rightarrow> world \<Rightarrow> (py_exn + unit) \<times> world" where
  "post_markdown_to_api ev markdown_data file_name w =
     (case requests_post ev (get_secret_from_env ev) file_name markdown_data of
        None \<Rightarrow>
          (Inr (), w\<lparr>posts := posts w @ [(file_name, markdown_data)],
                     log := log w @ [Info_posted file_name]\<rparr>)
      | Some e \<Rightarrow>
          if e = RequestException
          then (Inr (), w\<lparr>log := log w @ [Error_posting file_name e]\<rparr>)
          else (Inl e, w))"

definition save_markdown ::
  "env \<Rightarrow> string list \<Rightarrow> string \<Rightarrow> string \<Rightarrow> bool \<Rightarrow> bool \<Rightarrow> world
     \<Rightarrow> (py_exn + unit) \<times> world" where
  "save_markdown ev markdown_array output_file encoding upload save_as_file w =
     (let markdown_data = join CHR 0x0A markdown_array;
          written =
            (if save_as_file \<or> \<not> upload then
               (case open_w ev output_file encoding of
                  Some e \<Rightarrow> (Inl e, w)
                | None \<Rightarrow>
                    (Inr (),
                     w\<lparr>files := (files w)(output_file \<mapsto>
                                   encode_replace ev encoding markdown_data),
                       log := log w @ [Info_saved output_file encoding]\<rparr>))
             else (Inr (), w))
      in case written of
           (Inl e, w1) \<Rightarrow> (Inl e, w1)
         | (Inr u, w1) \<Rightarrow>
             if upload then post_markdown_to_api ev markdown_data (basename output_file) w1
             else (Inr (), w1))"

section \<open>The batch driver\<close>

text \<open>
  The body of the inner \<open>try\<close> of \<open>process_excel_to_markdown\<close> (lines 137 to
  149), for one sheet.  When it raises, the handlers
  need the value that the variable \<open>sheet_name\<close> has at that moment: still the
  integer when the look-up in \<open>xls.sheet_names\<close> failed, the name afterwards.
\<close>

definition sheet_body ::
  "env \<Rightarrow> workbook \<Rightarrow> string \<Rightarrow> string \<Rightarrow> bool \<Rightarrow> bool \<Rightarrow> sheet_spec \<Rightarrow> world
     \<Rightarrow> (py_exn \<times> ident + unit) \<times> world" where
  "sheet_body ev xls output_file encoding upload save_as_file sp w =
     (case (case sheet sp of
              Index i \<Rightarrow> py_index (sheet_names xls) (i - 1)
            | Name n \<Rightarrow> Inr n) of
        Inl e \<Rightarrow> (Inl (e, sheet sp), w)
      | Inr sheet_name \<Rightarrow>
          (case (if range_str sp \<noteq> [] then
                   (case excel_range_to_params (range_str sp) of
                      Inl e \<Rightarrow> Inl e
                    | Inr params \<Rightarrow> read_excel ev xls sheet_name (Some params))
                 else read_excel ev xls sheet_name None) of
             Inl e \<Rightarrow> (Inl (e, Name sheet_name), w)
           | Inr df \<Rightarrow>
               (case save_markdown ev (convert_to_markdown_array (tabulate ev) df)
                       (output_file @ ''_'' @ sheet_name) encoding upload save_as_file w of
                  (Inl e, w1) \<Rightarrow> (Inl (e, Name sheet_name), w1)
                | (Inr u, w1) \<Rightarrow> (Inr (), w1))))"

text \<open>
  The three handlers of the inner \<open>try\<close> (lines 150 to 155), tried in order.
  Matching the first one evaluates \<open>pd.errors.XLRDError\<close>.
\<close>

definition sheet_handlers ::
  "env \<Rightarrow> py_exn \<Rightarrow> ident \<Rightarrow> world \<Rightarrow> (py_exn + unit) \<times> world" where
  "sheet_handlers ev e sheet_name w =
     (if \<not> XLRDError_defined ev then (Inl AttributeError, w)
      else if e = XLRDError then (Inr (), w\<lparr>log := log w @ [Error_reading_sheet sheet_name e]\<rparr>)
      else if e = MemoryError then (Inr (), w\<lparr>log := log w @ [Error_memory sheet_name]\<rparr>)
      else (Inr (), w\<lparr>log := log w @ [Error_sheet_unexpected sheet_name e]\<rparr>))"

definition sheet_iteration ::
  "env \<Rightarrow> workbook \<Rightarrow> string \<Rightarrow> string \<Rightarrow> bool \<Rightarrow> bool \<Rightarrow> sheet_spec \<Rightarrow> world
     \<Rightarrow> (py_exn + unit) \<times> world" where
  "sheet_iteration ev xls output_file encoding upload save_as_file sp w =
     (case sheet_body ev xls output_file encoding upload save_as_file sp w of
        (Inl (e, sheet_name), w1) \<Rightarrow> sheet_handlers ev e sheet_name w1
      | (Inr u, w1) \<Rightarrow> (Inr (), w1))"

text \<open>\<open>for sheet in sheets\<close>: an exception that leaves an iteration ends the loop.\<close>

fun sheets_loop ::
  "env \<Rightarrow> workbook \<Rightarrow> string \<Rightarrow> string \<Rightarrow> bool \<Rightarrow> bool \<Rightarrow> sheet_spec list \<Rightarrow> world
     \<Rightarrow> (py_exn + unit) \<times> world" where
  "sheets_loop ev xls output_file encoding upload save_as_file [] w = (Inr (), w)"
| "sheets_loop ev xls output_file encoding upload save_as_file (sp # sps) w =
     (case sheet_iteration ev xls output_file encoding upload save_as_file sp w of
        (Inl e, w1) \<Rightarrow> (Inl e, w1)
      | (Inr u, w1) \<Rightarrow> sheets_loop ev xls output_file encoding upload save_as_file sps w1)"

definition process_excel_to_markdown ::
  "env \<Rightarrow> string \<Rightarrow> string \<Rightarrow> sheet_spec list \<Rightarrow> string \<Rightarrow> bool \<Rightarrow> bool \<Rightarrow> world
     \<Rightarrow> (py_exn + unit) \<times> world" where
  "process_excel_to_markdown ev input_file output_file sheets encoding upload save_as_file w =
     (case (case ExcelFile ev input_file of
              Inl e \<Rightarrow> (Inl e, w)
            | Inr xls \<Rightarrow> sheets_loop ev xls output_file encoding upload save_as_file sheets w) of
        (Inl e, w1) \<Rightarrow>
          if e = FileNotFoundError then (Inr (), w1\<lparr>log := log w1 @ [Error_file_not_found]\<rparr>)
          else (Inr (), w1\<lparr>log := log w1 @ [Error_unexpected e]\<rparr>)
      | (Inr u, w1) \<Rightarrow> (Inr (), w1))"

section \<open>Notions of the specification\<close>

text \<open>
  The specification speaks of range strings of the form
  \<open><letters><digits>:<letters><digits>\<close>.  The following predicates follow its
  words: letters are the Latin letters, digits the decimal digits, and both
  tokens are non-empty.
\<close>

definition is_letter :: "char \<Rightarrow> bool" where
  "is_letter c = (c \<in> set ''ABCDEFGHIJKLMNOPQRSTUVWXYZabcdefghijklmnopqrstuvwxyz'')"

definition letters :: "string \<Rightarrow> bool" where
  "letters s = (s \<noteq> [] \<and> list_all is_letter s)"

definition digits :: "string \<Rightarrow> bool" where
  "digits s = (s \<noteq> [] \<and> list_all is_decimal s)"

definition spec_cell_ref :: "string \<Rightarrow> bool" where
  "spec_cell_ref s = (letters (takeWhile is_letter s) \<and> digits (dropWhile is_letter s))"

definition spec_range_form :: "string \<Rightarrow> bool" where
  "spec_range_form s =
     (spec_cell_ref (takeWhile (\<lambda>c. c \<noteq> CHR '':'') s) \<and>
      (case dropWhile (\<lambda>c. c \<noteq> CHR '':'') s of
         [] \<Rightarrow> False
       | c # rest \<Rightarrow> spec_cell_ref rest))"

text \<open>
  Modelled from the spec: the inverse ``unescape'' of its section 4.3, which puts
  a line break back for every escape marker.  The source has no such function.
\<close>

fun unescape :: "string \<Rightarrow> string" where
  "unescape [] = []"
| "unescape (c # cs) =
     (if take 4 (c # cs) = ''<br>'' then CHR 0x0A # unescape (drop 3 cs)
      else c # unescape cs)"

definition unescape_cell :: "cell \<Rightarrow> cell" where
  "unescape_cell x = (case x of Str s \<Rightarrow> Str (unescape s) | _ \<Rightarrow> x)"


text \<open>Whether a text contains the escape marker.\<close>

fun contains_marker :: "string \<Rightarrow> bool" where
  "contains_marker [] = False"
| "contains_marker (c # cs) = (take 4 (c # cs) = ''<br>'' \<or> contains_marker cs)"

text \<open>
  The tokens of a number selector as the specification describes them: a single
  integer, written with decimal digits, or a hyphenated pair of them.
\<close>

datatype num_token = Single string | Hyphenated string string

fun num_token_ok :: "num_token \<Rightarrow> bool" where
  "num_token_ok (Single d) = digits d"
| "num_token_ok (Hyphenated a b) = (digits a \<and> digits b)"

fun num_token_text :: "num_token \<Rightarrow> string" where
  "num_token_text (Single d) = d"
| "num_token_text (Hyphenated a b) = a @ ''-'' @ b"

fun num_token_indices :: "num_token \<Rightarrow> int list" where
  "num_token_indices (Single d) = [dec d]"
| "num_token_indices (Hyphenated a b) = [dec a..dec b]"

text \<open>
  The tokens of a name selector: a bare name, or a name, an exclamation mark and
  a range.  Neither part contains the comma that separates tokens or the
  exclamation mark.
\<close>

datatype name_token = Bare string | Ranged string string

fun name_token_ok :: "name_token \<Rightarrow> bool" where
  "name_token_ok (Bare n) = (CHR '','' \<notin> set n \<and> CHR ''!'' \<notin> set n)"
| "name_token_ok (Ranged n r) =
     (CHR '','' \<notin> set n \<and> CHR ''!'' \<notin> set n \<and> CHR '','' \<notin> set r \<and> CHR ''!'' \<notin> set r)"

fun name_token_text :: "name_token \<Rightarrow> string" where
  "name_token_text (Bare n) = n"
| "name_token_text (Ranged n r) = n @ ''!'' @ r"

fun name_token_valid :: "name_token \<Rightarrow> bool" where
  "name_token_valid (Bare n) = True"
| "name_token_valid (Ranged n r) = range_checker r"

fun name_token_spec :: "name_token \<Rightarrow> sheet_spec" where
  "name_token_spec (Bare n) = \<lparr>sheet = Name (strip n), range_str = []\<rparr>"
| "name_token_spec (Ranged n r) = \<lparr>sheet = Name (strip n), range_str = r\<rparr>"

text \<open>
  Modelled from the spec: the pipe-table renderer of its section 6, a library
  function that is not part of the sources.  It writes the column labels on
  one line, a separator line, and every row on one line, each cell's text
  between pipes with a blank on each side.  A number is written in decimal, a
  missing cell as \<open>nan\<close>.
\<close>

fun show_nat :: "nat \<Rightarrow> string" where
  "show_nat n =
     (if n < 10 then [''0123456789'' ! n]
      else show_nat (n div 10) @ [''0123456789'' ! (n mod 10)])"

definition show_int :: "int \<Rightarrow> string" where
  "show_int i = (if i < 0 then CHR ''-'' # show_nat (nat (- i)) else show_nat (nat i))"

fun cell_text :: "cell \<Rightarrow> string" where
  "cell_text (Str s) = s"
| "cell_text (Num n) = show_int n"
| "cell_text NaN = ''nan''"

definition pipe_row :: "cell list \<Rightarrow> string" where
  "pipe_row r = CHR ''|'' # concat (map (\<lambda>c. '' '' @ cell_text c @ '' |'') r)"

definition pipe_table :: "dataframe \<Rightarrow> string" where
  "pipe_table d =
     join CHR 0x0A
       (pipe_row (columns d) # (CHR ''|'' # concat (map (\<lambda>c. ''---|'') (columns d))) #
        map pipe_row (rows d))"





section \<open>An example environment\<close>

text \<open>
  A small workbook and small stand-ins for the libraries, to run the model on
  concrete inputs: three sheets, a reader that knows exactly these sheets, a
  renderer that puts cells between pipes, a file system that accepts every
  path, an encoding without the letter \<open>z\<close>, and a remote API that is down.
\<close>

definition sample_workbook :: workbook where
  "sample_workbook = \<lparr>wb_path = ''book.xlsx'', sheet_names = [''S1'', ''S2'', ''S3'']\<rparr>"

definition sample_row :: "cell list \<Rightarrow> string" where
  "sample_row r =
     concat (map (\<lambda>c. case c of Str s \<Rightarrow> ''| '' @ s @ '' '' | _ \<Rightarrow> ''| ? '') r) @ ''|''"

definition sample_env :: env where
  "sample_env =
     \<lparr>tabulate = (\<lambda>d. join CHR 0x0A (map sample_row (columns d # rows d))),
      ExcelFile = (\<lambda>p. if p = ''book.xlsx'' then Inr sample_workbook else Inl FileNotFoundError),
      read_excel = (\<lambda>xls name params.
         if name \<in> set (sheet_names xls) then Inr \<lparr>columns = [Str ''h''], rows = [[Str name]]\<rparr>
         else Inl ValueError),
      open_w = (\<lambda>p enc. None),
      encodable = (\<lambda>enc c. c \<noteq> CHR ''z''),
      NOTEPM_SECRET = None,
      requests_post = (\<lambda>token title content. Some RequestException),
      XLRDError_defined = True\<rparr>"

definition empty_world :: world where
  "empty_world = \<lparr>files = Map.empty, posts = [], log = []\<rparr>"

text \<open>
  The same environment with a \<open>pandas.errors\<close> module that has no attribute
  \<open>XLRDError\<close>.
\<close>

definition stock_env :: env where
  "stock_env = sample_env\<lparr>XLRDError_defined := False\<rparr>"

section \<open>Properties of the range parser\<close>

lemma is_decimal_isdigit: "is_decimal c \<Longrightarrow> isdigit c"
  by (auto simp: is_decimal_def isdigit_def)

lemma is_decimal_not_space: "is_decimal c \<Longrightarrow> \<not> int_space c"
  by (auto simp: is_decimal_def int_space_def)

lemma is_decimal_not_special:
  "is_decimal c \<Longrightarrow> c \<noteq> CHR ''-'' \<and> c \<noteq> CHR ''+'' \<and> c \<noteq> CHR ''_'' \<and> c \<noteq> CHR '':''
     \<and> c \<noteq> CHR '','' \<and> c \<noteq> CHR ''!''"
  by (auto simp: is_decimal_def)

lemma is_letter_plain: "is_letter c \<Longrightarrow> \<not> isdigit c \<and> c \<noteq> CHR '':''"
  by (auto simp: is_letter_def isdigit_def)

lemma colon_not_digit: "\<not> isdigit CHR '':''"
  by (simp add: isdigit_def)

lemma int_digits_decimal: "ds \<noteq> [] \<Longrightarrow> \<forall>c\<in>set ds. is_decimal c \<Longrightarrow> int_digits ds"
  by (induction ds rule: int_digits.induct) (auto dest: is_decimal_not_special)

lemma dropWhile_rev_decimal:
  assumes "ds \<noteq> []" "\<forall>c\<in>set ds. is_decimal c"
  shows "rev (dropWhile int_space (rev (dropWhile int_space ds))) = ds"
proof -
  have "\<not> int_space (hd ds)" using assms by (simp add: is_decimal_not_space)
  then have a: "dropWhile int_space ds = ds" using assms(1) by (cases ds) auto
  have "\<not> int_space (last ds)" using assms by (simp add: is_decimal_not_space)
  then have "dropWhile int_space (rev ds) = rev ds" using assms(1)
    by (cases "rev ds") (auto simp: last_rev[symmetric] hd_rev)
  with a show ?thesis by simp
qed

lemma py_int_decimal:
  assumes "ds \<noteq> []" "\<forall>c\<in>set ds. is_decimal c"
  shows "py_int ds = Inr (dec ds)"
proof -
  have h: "hd ds \<noteq> CHR ''-''" "hd ds \<noteq> CHR ''+''"
    using assms is_decimal_not_special[of "hd ds"] by auto
  have f: "filter (\<lambda>c. c \<noteq> CHR ''_'') ds = ds"
    using assms(2) by (auto simp: filter_id_conv dest: is_decimal_not_special)
  show ?thesis
    using h f int_digits_decimal[OF assms] dropWhile_rev_decimal[OF assms]
    by (simp add: py_int_def Let_def)
qed

lemma scan_char_colon: "scan_char st CHR '':'' = st\<lparr>parsing_end_col := True\<rparr>"
  by (simp add: scan_char_def colon_not_digit)

lemma scan_after_colon:
  "parsing_end_col st \<Longrightarrow>
   foldl scan_char st s =
     st\<lparr>end_col := end_col st @ filter (\<lambda>c. \<not> isdigit c \<and> c \<noteq> CHR '':'') s,
        end_row := end_row st @ filter isdigit s\<rparr>"
  by (induction s arbitrary: st) (auto simp: scan_char_def colon_not_digit)

lemma scan_before_colon:
  "\<not> parsing_end_col st \<Longrightarrow>
   foldl scan_char st s =
     st\<lparr>start_col := start_col st @ filter (\<lambda>c. \<not> isdigit c) (takeWhile (\<lambda>c. c \<noteq> CHR '':'') s),
        start_row := start_row st @ filter isdigit (takeWhile (\<lambda>c. c \<noteq> CHR '':'') s),
        end_col := end_col st @ filter (\<lambda>c. \<not> isdigit c \<and> c \<noteq> CHR '':'') (dropWhile (\<lambda>c. c \<noteq> CHR '':'') s),
        end_row := end_row st @ filter isdigit (dropWhile (\<lambda>c. c \<noteq> CHR '':'') s),
        parsing_end_col := (dropWhile (\<lambda>c. c \<noteq> CHR '':'') s \<noteq> [])\<rparr>"
proof (induction s arbitrary: st)
  case Nil
  then show ?case by simp
next
  case (Cons c s)
  show ?case
  proof (cases "c = CHR '':''")
    case True
    then show ?thesis
      using Cons.prems scan_after_colon[of "st\<lparr>parsing_end_col := True\<rparr>" s]
      by (simp add: scan_char_colon colon_not_digit)
  next
    case False
    then have "\<not> parsing_end_col (scan_char st c)"
      using Cons.prems by (simp add: scan_char_def)
    from Cons.IH[OF this] False Cons.prems show ?thesis
      by (simp add: scan_char_def)
  qed
qed

lemma scan_buffers:
  "foldl scan_char scan_init s =
     \<lparr>start_col = filter (\<lambda>c. \<not> isdigit c) (takeWhile (\<lambda>c. c \<noteq> CHR '':'') s),
      start_row = filter isdigit (takeWhile (\<lambda>c. c \<noteq> CHR '':'') s),
      end_col = filter (\<lambda>c. \<not> isdigit c \<and> c \<noteq> CHR '':'') (dropWhile (\<lambda>c. c \<noteq> CHR '':'') s),
      end_row = filter isdigit (dropWhile (\<lambda>c. c \<noteq> CHR '':'') s),
      parsing_end_col = (dropWhile (\<lambda>c. c \<noteq> CHR '':'') s \<noteq> [])\<rparr>"
  by (simp add: scan_before_colon[of scan_init s, simplified scan_init_def, simplified] scan_init_def)

lemma py_int_digits: "digits ds \<Longrightarrow> py_int ds = Inr (dec ds)"
  by (simp add: digits_def list_all_iff py_int_decimal)

lemma range_parse_general:
  assumes "\<forall>c\<in>set c1. \<not> isdigit c \<and> c \<noteq> CHR '':''" "digits r1"
    and "\<forall>c\<in>set c2. \<not> isdigit c \<and> c \<noteq> CHR '':''" "digits r2"
  shows "excel_range_to_params (c1 @ r1 @ '':'' @ c2 @ r2) =
           Inr \<lparr>usecols = c1 @ '':'' @ c2, skiprows = dec r1 - 1,
                nrows = dec r2 - (dec r1 - 1)\<rparr>"
proof -
  let ?s = "c1 @ r1 @ '':'' @ c2 @ r2"
  have d1: "\<forall>c\<in>set r1. isdigit c \<and> c \<noteq> CHR '':''"
    and d2: "\<forall>c\<in>set r2. isdigit c \<and> c \<noteq> CHR '':''"
    using assms(2,4) is_decimal_isdigit is_decimal_not_special
    by (auto simp: digits_def list_all_iff)
  have tw: "takeWhile (\<lambda>c. c \<noteq> CHR '':'') ?s = c1 @ r1"
    using assms(1) d1 takeWhile_append2[of "c1 @ r1" "\<lambda>c. c \<noteq> CHR '':''" "'':'' @ c2 @ r2"]
    by auto
  have dw: "dropWhile (\<lambda>c. c \<noteq> CHR '':'') ?s = '':'' @ c2 @ r2"
    using assms(1) d1 dropWhile_append2[of "c1 @ r1" "\<lambda>c. c \<noteq> CHR '':''" "'':'' @ c2 @ r2"]
    by auto
  have f1: "filter isdigit c1 = []" "filter (\<lambda>c. \<not> isdigit c) c1 = c1"
    using assms(1) by (auto simp: filter_empty_conv filter_id_conv)
  have f2: "filter isdigit r1 = r1" "filter (\<lambda>c. \<not> isdigit c) r1 = []"
    using d1 by (auto simp: filter_empty_conv filter_id_conv)
  have f3: "filter isdigit c2 = []" "filter (\<lambda>c. \<not> isdigit c \<and> c \<noteq> CHR '':'') c2 = c2"
    using assms(3) by (auto simp: filter_empty_conv filter_id_conv)
  have f4: "filter isdigit r2 = r2" "filter (\<lambda>c. \<not> isdigit c \<and> c \<noteq> CHR '':'') r2 = []"
    using d2 by (auto simp: filter_empty_conv filter_id_conv)
  have st: "foldl scan_char scan_init ?s =
      \<lparr>start_col = c1, start_row = r1, end_col = c2, end_row = r2, parsing_end_col = True\<rparr>"
    unfolding scan_buffers tw dw by (simp add: f1 f2 f3 f4 colon_not_digit)
  show ?thesis
    unfolding excel_range_to_params_def st
    by (simp add: py_int_digits assms(2,4) Let_def)
qed

text \<open>
  Claim C2.  For every range string made of letters, digits, a colon, letters and
  digits, the parser returns the column range \<open><startCol>:<endCol>\<close>, the start
  row minus one as \<open>skiprows\<close>, and the end row minus \<open>skiprows\<close> as \<open>nrows\<close>.
  In particular \<open>A1:D10\<close> gives \<open>A:D\<close>, 0, 10 and \<open>B5:B20\<close> gives \<open>B:B\<close>, 4, 16.
\<close>

theorem range_parse_correct:
  "(letters c1 \<and> digits r1 \<and> letters c2 \<and> digits r2 \<longrightarrow>
      excel_range_to_params (c1 @ r1 @ '':'' @ c2 @ r2) =
        Inr \<lparr>usecols = c1 @ '':'' @ c2, skiprows = dec r1 - 1,
             nrows = dec r2 - (dec r1 - 1)\<rparr>) \<and>
   excel_range_to_params ''A1:D10'' = Inr \<lparr>usecols = ''A:D'', skiprows = 0, nrows = 10\<rparr> \<and>
   excel_range_to_params ''B5:B20'' = Inr \<lparr>usecols = ''B:B'', skiprows = 4, nrows = 16\<rparr>"
proof (intro conjI impI)
  assume a: "letters c1 \<and> digits r1 \<and> letters c2 \<and> digits r2"
  then have "\<forall>c\<in>set c1. \<not> isdigit c \<and> c \<noteq> CHR '':''" "\<forall>c\<in>set c2. \<not> isdigit c \<and> c \<noteq> CHR '':''"
    using is_letter_plain by (auto simp: letters_def list_all_iff)
  with a show "excel_range_to_params (c1 @ r1 @ '':'' @ c2 @ r2) =
        Inr \<lparr>usecols = c1 @ '':'' @ c2, skiprows = dec r1 - 1,
             nrows = dec r2 - (dec r1 - 1)\<rparr>"
    using range_parse_general[of c1 r1 c2 r2] by simp
next
  show "excel_range_to_params ''A1:D10'' = Inr \<lparr>usecols = ''A:D'', skiprows = 0, nrows = 10\<rparr>"
    by (simp add: excel_range_to_params_def scan_char_def scan_init_def isdigit_def py_int_def
        int_space_def is_decimal_def dec_def digit_val_def)
next
  show "excel_range_to_params ''B5:B20'' = Inr \<lparr>usecols = ''B:B'', skiprows = 4, nrows = 16\<rparr>"
    by (simp add: excel_range_to_params_def scan_char_def scan_init_def isdigit_def py_int_def
        int_space_def is_decimal_def dec_def digit_val_def)
qed

theorem range_parse_correct_witness:
  "letters ''AB'' \<and> digits ''12'' \<and> letters ''C'' \<and> digits ''300'' \<and>
   excel_range_to_params ''AB12:C300'' = Inr \<lparr>usecols = ''AB:C'', skiprows = 11, nrows = 289\<rparr>"
  using range_parse_correct[of "''AB''" "''12''" "''C''" "''300''"]
  by (simp add: letters_def digits_def is_letter_def is_decimal_def dec_def digit_val_def)

lemma py_int_error: "py_int s = Inl e \<Longrightarrow> e = ValueError"
  by (auto simp: py_int_def Let_def split: if_splits)

lemma int_digits_chars: "int_digits ds \<Longrightarrow> ds \<noteq> [] \<and> (\<forall>c\<in>set ds. is_decimal c \<or> c = CHR ''_'')"
  by (induction ds rule: int_digits.induct) (auto split: if_splits)

lemma isdigit_plain:
  "isdigit c \<Longrightarrow> \<not> int_space c \<and> c \<noteq> CHR ''-'' \<and> c \<noteq> CHR ''+'' \<and> c \<noteq> CHR ''_''"
  by (auto simp: isdigit_def int_space_def)

lemma strip_int_isdigit:
  assumes "\<forall>c\<in>set ds. isdigit c"
  shows "rev (dropWhile int_space (rev (dropWhile int_space ds))) = ds"
proof (cases "ds = []")
  case True
  then show ?thesis by simp
next
  case False
  have "\<not> int_space (hd ds)" using assms False by (simp add: isdigit_plain)
  then have a: "dropWhile int_space ds = ds" using False by (cases ds) auto
  have "\<not> int_space (last ds)" using assms False by (simp add: isdigit_plain)
  then have "dropWhile int_space (rev ds) = rev ds" using False
    by (cases "rev ds") (auto simp: last_rev[symmetric] hd_rev)
  with a show ?thesis by simp
qed

lemma py_int_isdigit:
  assumes "\<forall>c\<in>set ds. isdigit c"
  shows "py_int ds = (if digits ds then Inr (dec ds) else Inl ValueError)"
proof (cases "digits ds")
  case True
  then show ?thesis by (simp add: py_int_digits)
next
  case False
  have sign: "ds \<noteq> [] \<Longrightarrow> hd ds \<noteq> CHR ''-'' \<and> hd ds \<noteq> CHR ''+''"
    using assms isdigit_plain[of "hd ds"] by auto
  have "\<not> int_digits ds"
  proof
    assume "int_digits ds"
    then have "ds \<noteq> []" "\<forall>c\<in>set ds. is_decimal c \<or> c = CHR ''_''"
      using int_digits_chars by auto
    moreover have "\<forall>c\<in>set ds. c \<noteq> CHR ''_''" using assms isdigit_plain by blast
    ultimately have "digits ds" by (auto simp: digits_def list_all_iff)
    with False show False by simp
  qed
  then show ?thesis
    using False sign strip_int_isdigit[OF assms]
    by (auto simp: py_int_def Let_def)
qed

lemma range_parse_rows:
  "excel_range_to_params s =
     (if digits (filter isdigit (takeWhile (\<lambda>c. c \<noteq> CHR '':'') s)) \<and>
         digits (filter isdigit (dropWhile (\<lambda>c. c \<noteq> CHR '':'') s))
      then Inr \<lparr>usecols = filter (\<lambda>c. \<not> isdigit c) (takeWhile (\<lambda>c. c \<noteq> CHR '':'') s) @ '':'' @
                          filter (\<lambda>c. \<not> isdigit c \<and> c \<noteq> CHR '':'') (dropWhile (\<lambda>c. c \<noteq> CHR '':'') s),
                skiprows = dec (filter isdigit (takeWhile (\<lambda>c. c \<noteq> CHR '':'') s)) - 1,
                nrows = dec (filter isdigit (dropWhile (\<lambda>c. c \<noteq> CHR '':'') s)) -
                        (dec (filter isdigit (takeWhile (\<lambda>c. c \<noteq> CHR '':'') s)) - 1)\<rparr>
      else Inl ValueError)"
  unfolding excel_range_to_params_def scan_buffers
  by (simp add: py_int_isdigit Let_def)

lemma spec_cell_ref_split:
  "spec_cell_ref s \<Longrightarrow> \<exists>c r. letters c \<and> digits r \<and> s = c @ r"
  unfolding spec_cell_ref_def
  using takeWhile_dropWhile_id[of is_letter s] by metis

lemma spec_range_form_split:
  assumes "spec_range_form s"
  shows "\<exists>c1 r1 c2 r2. letters c1 \<and> digits r1 \<and> letters c2 \<and> digits r2 \<and>
           s = c1 @ r1 @ '':'' @ c2 @ r2"
proof -
  let ?P = "\<lambda>c. c \<noteq> CHR '':''"
  from assms obtain c rest where dw: "dropWhile ?P s = c # rest"
    and r1: "spec_cell_ref (takeWhile ?P s)" and r2: "spec_cell_ref rest"
    by (auto simp: spec_range_form_def split: list.splits)
  have "\<not> ?P (hd (dropWhile ?P s))" using dw hd_dropWhile[of ?P s] by auto
  then have c: "c = CHR '':''" using dw by simp
  from r1 obtain c1 r1 where a: "letters c1" "digits r1" "takeWhile ?P s = c1 @ r1"
    using spec_cell_ref_split by blast
  from r2 obtain c2 r2 where b: "letters c2" "digits r2" "rest = c2 @ r2"
    using spec_cell_ref_split by blast
  have "s = takeWhile ?P s @ dropWhile ?P s" by simp
  then have "s = c1 @ r1 @ '':'' @ c2 @ r2" using a(3) b(3) dw c by simp
  with a b show ?thesis by blast
qed

lemma letter_not_decimal: "is_letter c \<Longrightarrow> \<not> is_decimal c"
  by (auto simp: is_letter_def is_decimal_def)

lemma spec_cell_ref_join:
  assumes "letters c" "digits r"
  shows "spec_cell_ref (c @ r)"
proof -
  have l: "\<forall>x\<in>set c. is_letter x" using assms(1) by (simp add: letters_def list_all_iff)
  have "r \<noteq> []" "is_decimal (hd r)" using assms(2) by (auto simp: digits_def list_all_iff)
  then have "\<not> is_letter (hd r)" using letter_not_decimal by blast
  then have "takeWhile is_letter (c @ r) = c" "dropWhile is_letter (c @ r) = r"
    using l \<open>r \<noteq> []\<close> by (cases r; simp)+
  then show ?thesis using assms by (simp add: spec_cell_ref_def)
qed

lemma spec_range_form_join:
  assumes "letters c1" "digits r1" "letters c2" "digits r2"
  shows "spec_range_form (c1 @ r1 @ '':'' @ c2 @ r2)"
proof -
  let ?P = "\<lambda>c. c \<noteq> CHR '':''"
  have "\<forall>x\<in>set (c1 @ r1). ?P x"
    using assms(1,2) is_letter_plain is_decimal_not_special
    by (auto simp: letters_def digits_def list_all_iff)
  then have "takeWhile ?P ((c1 @ r1) @ '':'' @ c2 @ r2) = c1 @ r1"
    "dropWhile ?P ((c1 @ r1) @ '':'' @ c2 @ r2) = '':'' @ c2 @ r2"
    using takeWhile_append2[of "c1 @ r1" ?P "'':'' @ c2 @ r2"]
      dropWhile_append2[of "c1 @ r1" ?P "'':'' @ c2 @ r2"]
    by auto
  then show ?thesis
    using spec_cell_ref_join[OF assms(1,2)] spec_cell_ref_join[OF assms(3,4)]
    by (simp add: spec_range_form_def)
qed

lemma range_form_accepted:
  assumes "spec_range_form s"
  shows "\<exists>p. excel_range_to_params s = Inr p"
proof -
  obtain c1 r1 c2 r2 where a: "letters c1" "digits r1" "letters c2" "digits r2"
    and s: "s = c1 @ r1 @ '':'' @ c2 @ r2"
    using spec_range_form_split[OF assms] by blast
  have "\<forall>c\<in>set c1. \<not> isdigit c \<and> c \<noteq> CHR '':''" "\<forall>c\<in>set c2. \<not> isdigit c \<and> c \<noteq> CHR '':''"
    using a is_letter_plain by (auto simp: letters_def list_all_iff)
  then show ?thesis
    using range_parse_general[of c1 r1 c2 r2] a s by simp
qed

text \<open>
  Claim C5, as amended.  The parser fails, always with \<open>ValueError\<close>, exactly when
  the digit characters before the first colon, or those after it, are not a
  non-empty run of decimal digits.  Every string of the form
  \<open><letters><digits>:<letters><digits>\<close> is accepted, and \<open>A:D10\<close>, which has no
  start row, is rejected.
\<close>

theorem range_parse_failure:
  "(excel_range_to_params s = Inl ValueError \<longleftrightarrow>
      \<not> (digits (filter isdigit (takeWhile (\<lambda>c. c \<noteq> CHR '':'') s)) \<and>
         digits (filter isdigit (dropWhile (\<lambda>c. c \<noteq> CHR '':'') s)))) \<and>
   (\<forall>e. excel_range_to_params s = Inl e \<longrightarrow> e = ValueError) \<and>
   (spec_range_form s \<longrightarrow> (\<exists>p. excel_range_to_params s = Inr p)) \<and>
   excel_range_to_params ''A:D10'' = Inl ValueError"
proof (intro conjI)
  show "excel_range_to_params s = Inl ValueError \<longleftrightarrow>
      \<not> (digits (filter isdigit (takeWhile (\<lambda>c. c \<noteq> CHR '':'') s)) \<and>
         digits (filter isdigit (dropWhile (\<lambda>c. c \<noteq> CHR '':'') s)))"
    by (subst range_parse_rows) simp
  show "\<forall>e. excel_range_to_params s = Inl e \<longrightarrow> e = ValueError"
    by (subst range_parse_rows) simp
  show "spec_range_form s \<longrightarrow> (\<exists>p. excel_range_to_params s = Inr p)"
    using range_form_accepted by blast
  show "excel_range_to_params ''A:D10'' = Inl ValueError"
    by (simp add: excel_range_to_params_def scan_char_def scan_init_def isdigit_def py_int_def
        int_space_def is_decimal_def dec_def digit_val_def)
qed

theorem range_parse_failure_witness:
  "spec_range_form ''C3:E7'' \<and>
   digits (filter isdigit (takeWhile (\<lambda>c. c \<noteq> CHR '':'') ''C3:E7'')) \<and>
   digits (filter isdigit (dropWhile (\<lambda>c. c \<noteq> CHR '':'') ''C3:E7'')) \<and>
   excel_range_to_params ''C3:E7'' \<noteq> Inl ValueError \<and>
   (\<exists>p. excel_range_to_params ''C3:E7'' = Inr p) \<and>
   \<not> digits (filter isdigit (takeWhile (\<lambda>c. c \<noteq> CHR '':'') ''A:D10'')) \<and>
   excel_range_to_params ''A:D10'' = Inl ValueError"
proof -
  have a: "spec_range_form ''C3:E7''"
    "digits (filter isdigit (takeWhile (\<lambda>c. c \<noteq> CHR '':'') ''C3:E7''))"
    "digits (filter isdigit (dropWhile (\<lambda>c. c \<noteq> CHR '':'') ''C3:E7''))"
    "\<not> digits (filter isdigit (takeWhile (\<lambda>c. c \<noteq> CHR '':'') ''A:D10''))"
    by (simp_all add: spec_range_form_def spec_cell_ref_def letters_def digits_def is_letter_def
        is_decimal_def isdigit_def)
  show ?thesis
    using range_parse_failure[of "''C3:E7''"] range_parse_failure[of "''A:D10''"] a
    by blast
qed

text \<open>
  The claim as stated does not hold: \<open>1A:2B\<close> is not of the form
  \<open><letters><digits>:<letters><digits>\<close>, and the parser accepts it.
\<close>

theorem range_parse_failure_counterexample:
  "\<not> spec_range_form ''1A:2B'' \<and>
   excel_range_to_params ''1A:2B'' = Inr \<lparr>usecols = ''A:B'', skiprows = 0, nrows = 2\<rparr>"
  by (simp add: spec_range_form_def spec_cell_ref_def letters_def digits_def is_letter_def
      excel_range_to_params_def scan_char_def scan_init_def isdigit_def py_int_def
      int_space_def is_decimal_def dec_def digit_val_def)

section \<open>Splitting, joining and trimming\<close>

lemma split_not_Nil: "split sep s \<noteq> []"
  by (induction s) (auto split: list.splits)

lemma split_no_sep: "p \<in> set (split sep s) \<Longrightarrow> sep \<notin> set p"
  by (induction s arbitrary: p) (auto split: if_splits list.splits)

lemma split_plain: "sep \<notin> set s \<Longrightarrow> split sep s = [s]"
  by (induction s) auto

lemma split_append:
  "sep \<notin> set p \<Longrightarrow> split sep (p @ sep # s) = p # split sep s"
  by (induction p) (auto split: list.splits)

lemma split_join:
  "ps \<noteq> [] \<Longrightarrow> \<forall>p\<in>set ps. sep \<notin> set p \<Longrightarrow> split sep (join sep ps) = ps"
proof (induction sep ps rule: join.induct)
  case (1 sep)
  then show ?case by simp
next
  case (2 sep p)
  then show ?case by (simp add: split_plain)
next
  case (3 sep p q ps)
  then show ?case by (simp add: split_append)
qed

lemma set_split: "p \<in> set (split sep s) \<Longrightarrow> set p \<subseteq> set s"
proof (induction s arbitrary: p)
  case Nil
  then show ?case by simp
next
  case (Cons c s)
  show ?case
  proof (cases "c = sep")
    case True
    then show ?thesis using Cons by auto
  next
    case False
    obtain q qs where q: "split sep s = q # qs"
      using split_not_Nil[of sep s] by (cases "split sep s") auto
    then have "p = c # q \<or> p \<in> set qs" using Cons.prems False by simp
    then show ?thesis using Cons.IH[of q] Cons.IH[of p] q by auto
  qed
qed

lemma set_join: "set (join sep ps) \<subseteq> insert sep (\<Union>p\<in>set ps. set p)"
  by (induction sep ps rule: join.induct) auto

lemma join_has_sep: "length ps \<ge> 2 \<Longrightarrow> sep \<in> set (join sep ps)"
  by (induction sep ps rule: join.induct) auto

lemma split_length: "sep \<in> set s \<Longrightarrow> length (split sep s) \<ge> 2"
  using split_not_Nil[of sep]
  by (induction s) (auto split: list.splits if_splits simp: Suc_le_eq)

lemma set_strip: "set (strip s) \<subseteq> set s"
proof -
  have "set (dropWhile isspace (rev (dropWhile isspace s))) \<subseteq> set (rev (dropWhile isspace s))"
    using set_dropWhileD by fastforce
  also have "\<dots> \<subseteq> set s" using set_dropWhileD by fastforce
  finally show ?thesis by (simp add: strip_def)
qed

lemma dropWhile_rev_dropWhile:
  assumes "xs = [] \<or> \<not> P (last xs)"
  shows "dropWhile P (rev (dropWhile P xs)) = rev (dropWhile P xs)"
proof (cases "dropWhile P xs = []")
  case True
  show ?thesis unfolding True by simp
next
  case False
  have "xs = takeWhile P xs @ dropWhile P xs" by simp
  then have "last xs = last (dropWhile P xs)" using False by (metis last_appendR)
  moreover have "xs \<noteq> []" using False by auto
  ultimately have "\<not> P (hd (rev (dropWhile P xs)))" using assms False by (simp add: hd_rev)
  then show ?thesis using False by (cases "rev (dropWhile P xs)") auto
qed

lemma strip_idem: "strip (strip s) = strip s"
proof -
  let ?u = "dropWhile isspace s"
  have "?u = [] \<or> \<not> isspace (hd ?u)" using hd_dropWhile[of isspace s] by blast
  then have "rev ?u = [] \<or> \<not> isspace (last (rev ?u))" by (auto simp: last_rev)
  then have "dropWhile isspace (strip s) = strip s"
    unfolding strip_def by (rule dropWhile_rev_dropWhile)
  then show ?thesis
    by (simp add: strip_def)
qed

section \<open>Idempotence of the cleaning step\<close>

lemma clean_line_idem:
  assumes "CHR ''|'' \<in> set line"
  defines "cleaned \<equiv> join CHR ''|'' (map strip (split CHR ''|'' line))"
  shows "CHR ''|'' \<in> set cleaned"
    and "join CHR ''|'' (map strip (split CHR ''|'' cleaned)) = cleaned"
proof -
  let ?ps = "map strip (split CHR ''|'' line)"
  have len: "length ?ps \<ge> 2" using split_length[OF assms(1)] by simp
  then show "CHR ''|'' \<in> set cleaned" unfolding cleaned_def by (rule join_has_sep)
  have ne: "?ps \<noteq> []" using split_not_Nil by simp
  have nosep: "\<forall>p\<in>set ?ps. CHR ''|'' \<notin> set p"
    using split_no_sep[of _ "CHR ''|''" line] set_strip by fastforce
  have "split CHR ''|'' cleaned = ?ps"
    unfolding cleaned_def using ne nosep by (rule split_join)
  then show "join CHR ''|'' (map strip (split CHR ''|'' cleaned)) = cleaned"
    by (simp add: cleaned_def strip_idem comp_def)
qed

text \<open>
  Claim C9.  Cleaning the lines of a rendered table a second time changes
  nothing: \<open>clean (clean x) = clean x\<close> for every list of lines.
\<close>

theorem clean_idempotent:
  "clean_markdown_lines (clean_markdown_lines x) = clean_markdown_lines x"
  by (induction x) (auto simp: clean_markdown_lines_def clean_line_idem)

theorem clean_idempotent_witness:
  "clean_markdown_lines [''|  a   | b  |'', ''|:--|--:|'', ''text  ''] = [''|a|b|'', ''|:--|--:|'', ''text  ''] \<and>
   clean_markdown_lines [''|a|b|'', ''|:--|--:|'', ''text  ''] = [''|a|b|'', ''|:--|--:|'', ''text  '']"
proof -
  have a: "clean_markdown_lines [''|  a   | b  |'', ''|:--|--:|'', ''text  ''] = [''|a|b|'', ''|:--|--:|'', ''text  '']"
    by (simp add: clean_markdown_lines_def strip_def isspace_def)
  show ?thesis
    using clean_idempotent[of "[''|  a   | b  |'', ''|:--|--:|'', ''text  '']"]
    unfolding a by (simp add: a)
qed

section \<open>Escaping of line breaks\<close>

lemma clean_line_no_newline:
  assumes "CHR 0x0A \<notin> set line"
  shows "CHR 0x0A \<notin> set (join CHR ''|'' (map strip (split CHR ''|'' line)))"
proof
  assume "CHR 0x0A \<in> set (join CHR ''|'' (map strip (split CHR ''|'' line)))"
  then have "CHR 0x0A \<in> insert CHR ''|'' (\<Union>p\<in>set (map strip (split CHR ''|'' line)). set p)"
    using set_join by blast
  then obtain q where "q \<in> set (split CHR ''|'' line)" "CHR 0x0A \<in> set (strip q)" by auto
  then have "CHR 0x0A \<in> set line" using set_strip set_split by blast
  with assms show False by simp
qed

lemma rendered_lines_no_newline:
  assumes "line \<in> set (convert_to_markdown_array tab df)"
  shows "CHR 0x0A \<notin> set line"
proof -
  from assms obtain raw where raw: "raw \<in> set (split CHR 0x0A (tab (escape_newlines (fillna [] df))))"
    and line: "line = (if CHR ''|'' \<in> set raw
                 then join CHR ''|'' (map strip (split CHR ''|'' raw)) else raw)"
    by (auto simp: convert_to_markdown_array_def clean_markdown_lines_def)
  have "CHR 0x0A \<notin> set raw" using raw by (rule split_no_sep)
  then show ?thesis using line clean_line_no_newline by simp
qed


lemma replace_newline_break:
  "replace_newline (xs @ CHR 0x0A # ys) = replace_newline xs @ ''<br>'' @ replace_newline ys"
  by (simp add: replace_newline_def)

lemma replace_newline_plain: "CHR 0x0A \<notin> set xs \<Longrightarrow> replace_newline xs = xs"
  by (induction xs) (auto simp: replace_newline_def)

lemma replace_newline_no_newline: "CHR 0x0A \<notin> set (replace_newline xs)"
  by (induction xs) (auto simp: replace_newline_def)

lemma escaped_cells_no_newline:
  assumes "row \<in> set (rows (escape_newlines (fillna [] df)))" "Str s \<in> set row"
  shows "CHR 0x0A \<notin> set s"
proof -
  from assms obtain x where "Str s = escape_cell (fill_cell [] x)"
    by (auto simp: escape_newlines_def fillna_def applymap_def)
  then show ?thesis
    using replace_newline_no_newline
    by (cases x) (auto simp: escape_cell_def fill_cell_def replace_newline_def)
qed

text \<open>The column labels are not cells for \<open>applymap\<close>: escaping leaves them as they are.\<close>

lemma escape_newlines_columns: "columns (escape_newlines (fillna v df)) = columns df"
  by (simp add: escape_newlines_def fillna_def applymap_def)

text \<open>
  Claim C3 fails on the code.  The claim: for every table, no line of the
  rendered output has a raw line break inside a cell, and every line break of
  a string cell is replaced by the escape marker, once, in its place.  The
  code: \<open>escape_newlines\<close> visits the cells of the rows only, so whatever the
  renderer, it receives the column labels as they were; with a line break in a
  label the header cell is cut over two lines of the output, with no marker,
  while the same break in a body cell is escaped.  A carriage return in a cell
  is left as it is, too.
\<close>

theorem header_break_unescaped:
  "columns (escape_newlines (fillna v df)) = columns df \<and>
   convert_to_markdown_array pipe_table
     \<lparr>columns = [Str [CHR ''a'', CHR 0x0A, CHR ''b'']],
      rows = [[Str [CHR ''x'', CHR 0x0A, CHR ''y'']]]\<rparr> =
     [''|a'', ''b|'', ''|---|'', ''|x<br>y|''] \<and>
   convert_to_markdown_array pipe_table
     \<lparr>columns = [Str ''h''], rows = [[Str [CHR ''x'', CHR 0x0D, CHR ''y'']]]\<rparr> =
     [''|h|'', ''|---|'', [CHR ''|'', CHR ''x'', CHR 0x0D, CHR ''y'', CHR ''|'']]"
  by (simp add: convert_to_markdown_array_def pipe_table_def pipe_row_def
      clean_markdown_lines_def escape_newlines_def fillna_def applymap_def escape_cell_def
      fill_cell_def replace_newline_def strip_def isspace_def)

section \<open>Round trip of the rendering\<close>

lemma replace_newline_Cons:
  "replace_newline (c # cs) = (if c = CHR 0x0A then ''<br>'' @ replace_newline cs else c # replace_newline cs)"
  by (simp add: replace_newline_def)

lemma replace_newline_Nil: "replace_newline [] = []"
  by (simp add: replace_newline_def)

lemma take3_replace_newline:
  assumes "take 3 (replace_newline cs) = ''br>''"
  shows "take 3 cs = ''br>''"
proof -
  obtain x xs where 1: "cs = x # xs" "x = CHR ''b''" "take 2 (replace_newline xs) = ''r>''"
    using assms by (cases cs) (auto simp: replace_newline_Cons replace_newline_Nil split: if_splits)
  obtain y ys where 2: "xs = y # ys" "y = CHR ''r''" "take 1 (replace_newline ys) = ''>''"
    using 1(3) by (cases xs) (auto simp: replace_newline_Cons replace_newline_Nil split: if_splits)
  obtain z zs where 3: "ys = z # zs" "z = CHR ''>''"
    using 2(3) by (cases ys) (auto simp: replace_newline_Cons replace_newline_Nil split: if_splits)
  show ?thesis using 1 2 3 by simp
qed

lemma unescape_replace_newline:
  "\<not> contains_marker s \<Longrightarrow> unescape (replace_newline s) = s"
proof (induction s)
  case Nil
  then show ?case by (simp add: replace_newline_Nil)
next
  case (Cons c cs)
  then have nm: "take 4 (c # cs) \<noteq> ''<br>''" and ih: "unescape (replace_newline cs) = cs"
    by auto
  show ?case
  proof (cases "c = CHR 0x0A")
    case True
    then show ?thesis using ih by (simp add: replace_newline_Cons)
  next
    case False
    have "take 4 (c # replace_newline cs) \<noteq> ''<br>''"
    proof
      assume a: "take 4 (c # replace_newline cs) = ''<br>''"
      then have "c = CHR ''<''" "take 3 (replace_newline cs) = ''br>''" by auto
      then have "take 4 (c # cs) = ''<br>''" using take3_replace_newline by auto
      with nm show False by simp
    qed
    then show ?thesis using False ih by (simp add: replace_newline_Cons)
  qed
qed

lemma unescape_escape_cell:
  "(\<forall>s. x = Str s \<longrightarrow> \<not> contains_marker s) \<Longrightarrow> unescape_cell (escape_cell x) = x"
  by (cases x) (auto simp: unescape_cell_def escape_cell_def unescape_replace_newline)









lemma replace_newline_empty: "replace_newline s = [] \<longleftrightarrow> s = []"
  by (cases s) (auto simp: replace_newline_Cons replace_newline_Nil)











section \<open>Properties of the sheet selectors\<close>

lemma digits_chars: "digits d \<Longrightarrow> CHR ''-'' \<notin> set d \<and> CHR '','' \<notin> set d"
  using is_decimal_not_special by (auto simp: digits_def list_all_iff)

lemma number_item_token:
  assumes "num_token_ok t"
  shows "number_item (num_token_text t) = Inr (num_token_indices t)"
proof (cases t)
  case (Single d)
  then show ?thesis using assms digits_chars[of d]
    by (simp add: number_item_def py_int_digits)
next
  case (Hyphenated a b)
  then have a: "digits a" "digits b" using assms by auto
  have "split CHR ''-'' (a @ CHR ''-'' # b) = [a, b]"
    using digits_chars[OF a(1)] digits_chars[OF a(2)] by (simp add: split_append split_plain)
  then show ?thesis using Hyphenated a
    by (simp add: number_item_def py_int_digits)
qed

lemma numbers_loop_tokens:
  "list_all num_token_ok ts \<Longrightarrow>
   numbers_loop acc (map num_token_text ts) = Inr (acc @ concat (map num_token_indices ts))"
  by (induction ts arbitrary: acc) (auto simp: number_item_token)

lemma num_token_text_no_comma: "num_token_ok t \<Longrightarrow> CHR '','' \<notin> set (num_token_text t)"
  using digits_chars by (cases t) auto

text \<open>
  Claim C8.  For a number selector whose comma-separated tokens are single
  integers or hyphenated pairs, each pair \<open>a-b\<close> expands to \<open>a, a+1, \<dots>, b\<close>, the
  order of the tokens and duplicates are kept, and every resulting sheet
  specification has no range.  In particular \<open>1-3,5\<close> gives 1, 2, 3, 5.
\<close>

theorem number_selector_expansion:
  "(ts \<noteq> [] \<and> list_all num_token_ok ts \<longrightarrow>
      parse_sheet_numbers (join CHR '','' (map num_token_text ts)) =
        Inr (map (\<lambda>n. \<lparr>sheet = Index n, range_str = []\<rparr>) (concat (map num_token_indices ts)))) \<and>
   parse_sheet_numbers ''1-3,5'' =
     Inr (map (\<lambda>n. \<lparr>sheet = Index n, range_str = []\<rparr>) [1, 2, 3, 5])"
proof (intro conjI impI)
  assume a: "ts \<noteq> [] \<and> list_all num_token_ok ts"
  then have "\<forall>p\<in>set (map num_token_text ts). CHR '','' \<notin> set p"
    using num_token_text_no_comma by (auto simp: list_all_iff)
  then have "split CHR '','' (join CHR '','' (map num_token_text ts)) = map num_token_text ts"
    using a by (intro split_join) auto
  then show "parse_sheet_numbers (join CHR '','' (map num_token_text ts)) =
        Inr (map (\<lambda>n. \<lparr>sheet = Index n, range_str = []\<rparr>) (concat (map num_token_indices ts)))"
    using a by (simp add: parse_sheet_numbers_def numbers_loop_tokens)
next
  have u: "[1..3] = [1, 2, 3::int]" by (simp add: upto.simps)
  show "parse_sheet_numbers ''1-3,5'' =
     Inr (map (\<lambda>n. \<lparr>sheet = Index n, range_str = []\<rparr>) [1, 2, 3, 5])"
    by (simp add: parse_sheet_numbers_def number_item_def py_int_def int_space_def is_decimal_def
        dec_def digit_val_def u)
qed

theorem number_selector_expansion_witness:
  "[Hyphenated ''2'' ''4'', Single ''2'', Single ''10''] \<noteq> [] \<and>
   list_all num_token_ok [Hyphenated ''2'' ''4'', Single ''2'', Single ''10''] \<and>
   parse_sheet_numbers ''2-4,2,10'' =
     Inr (map (\<lambda>n. \<lparr>sheet = Index n, range_str = []\<rparr>) [2, 3, 4, 2, 10])"
proof -
  have u: "[2..4] = [2, 3, 4::int]" by (simp add: upto.simps)
  show ?thesis
    using number_selector_expansion[of "[Hyphenated ''2'' ''4'', Single ''2'', Single ''10'']"]
    by (simp add: digits_def is_decimal_def dec_def digit_val_def u)
qed

lemma name_item_token:
  assumes "name_token_ok t"
  shows "name_item (name_token_text t) =
           (if name_token_valid t then Inr (name_token_spec t) else Inl ValueError)"
proof (cases t)
  case (Bare n)
  then show ?thesis using assms by (simp add: name_item_def)
next
  case (Ranged n r)
  then have "split CHR ''!'' (n @ CHR ''!'' # r) = [n, r]"
    using assms by (simp add: split_append split_plain)
  then show ?thesis using Ranged by (simp add: name_item_def)
qed

lemma names_loop_tokens:
  "list_all name_token_ok ts \<Longrightarrow>
   names_loop acc (map name_token_text ts) =
     (if list_all name_token_valid ts then Inr (acc @ map name_token_spec ts) else Inl ValueError)"
  by (induction ts arbitrary: acc) (auto simp: name_item_token)

lemma name_token_text_no_comma: "name_token_ok t \<Longrightarrow> CHR '','' \<notin> set (name_token_text t)"
  by (cases t) auto

text \<open>
  Claim C7, as amended.  For a name selector, a token \<open>Name!Range\<close> gives a sheet
  specification with the name, trimmed of surrounding white space, and the
  range; a bare token gives its trimmed name and no range; the order of the
  tokens is kept.  If the range of some token fails the range check, the whole
  parse raises \<open>ValueError\<close> and no list is returned.
\<close>

theorem name_selector_parse:
  "(ts \<noteq> [] \<and> list_all name_token_ok ts \<longrightarrow>
      parse_sheet_names (join CHR '','' (map name_token_text ts)) =
        (if list_all name_token_valid ts then Inr (map name_token_spec ts) else Inl ValueError)) \<and>
   parse_sheet_names ''Sheet1!A1:B10,Sheet2'' =
     Inr [\<lparr>sheet = Name ''Sheet1'', range_str = ''A1:B10''\<rparr>,
          \<lparr>sheet = Name ''Sheet2'', range_str = []\<rparr>]"
proof (intro conjI impI)
  assume a: "ts \<noteq> [] \<and> list_all name_token_ok ts"
  then have "\<forall>p\<in>set (map name_token_text ts). CHR '','' \<notin> set p"
    using name_token_text_no_comma by (auto simp: list_all_iff)
  then have "split CHR '','' (join CHR '','' (map name_token_text ts)) = map name_token_text ts"
    using a by (intro split_join) auto
  then show "parse_sheet_names (join CHR '','' (map name_token_text ts)) =
        (if list_all name_token_valid ts then Inr (map name_token_spec ts) else Inl ValueError)"
    using a by (simp add: parse_sheet_names_def names_loop_tokens)
next
  show "parse_sheet_names ''Sheet1!A1:B10,Sheet2'' =
     Inr [\<lparr>sheet = Name ''Sheet1'', range_str = ''A1:B10''\<rparr>,
          \<lparr>sheet = Name ''Sheet2'', range_str = []\<rparr>]"
    by (simp add: parse_sheet_names_def name_item_def range_checker_def strip_def isspace_def
        excel_range_to_params_def scan_char_def scan_init_def isdigit_def py_int_def
        int_space_def is_decimal_def dec_def digit_val_def)
qed

theorem name_selector_parse_witness:
  "[Ranged '' Data '' ''B2:C9'', Bare ''Notes ''] \<noteq> [] \<and>
   list_all name_token_ok [Ranged '' Data '' ''B2:C9'', Bare ''Notes ''] \<and>
   list_all name_token_valid [Ranged '' Data '' ''B2:C9'', Bare ''Notes ''] \<and>
   parse_sheet_names '' Data !B2:C9,Notes '' =
     Inr [\<lparr>sheet = Name ''Data'', range_str = ''B2:C9''\<rparr>, \<lparr>sheet = Name ''Notes'', range_str = []\<rparr>] \<and>
   list_all name_token_ok [Bare ''Notes'', Ranged ''Data'' ''B:C9''] \<and>
   \<not> list_all name_token_valid [Bare ''Notes'', Ranged ''Data'' ''B:C9''] \<and>
   parse_sheet_names ''Notes,Data!B:C9'' = Inl ValueError"
proof -
  have v: "range_checker ''B2:C9''" "\<not> range_checker ''B:C9''"
    by (simp_all add: range_checker_def excel_range_to_params_def scan_char_def scan_init_def
        isdigit_def py_int_def int_space_def is_decimal_def dec_def digit_val_def)
  show ?thesis
    using name_selector_parse[of "[Ranged '' Data '' ''B2:C9'', Bare ''Notes '']"]
      name_selector_parse[of "[Bare ''Notes'', Ranged ''Data'' ''B:C9'']"]
    by (simp add: v strip_def isspace_def)
qed

text \<open>
  The claim as stated does not hold: the second token of \<open>Sheet1, Sheet2\<close>
  begins with a space, and the sheet specification made from it carries the
  name without the space.
\<close>

theorem name_selector_counterexample:
  "split CHR '','' ''Sheet1, Sheet2'' = [''Sheet1'', '' Sheet2''] \<and>
   parse_sheet_names ''Sheet1, Sheet2'' =
     Inr [\<lparr>sheet = Name ''Sheet1'', range_str = []\<rparr>, \<lparr>sheet = Name ''Sheet2'', range_str = []\<rparr>] \<and>
   Name ''Sheet2'' \<noteq> Name '' Sheet2''"
  by (simp add: parse_sheet_names_def name_item_def strip_def isspace_def)

section \<open>Properties of the output sink\<close>

lemma post_keeps_files: "files (snd (post_markdown_to_api ev d n w)) = files w"
  by (simp add: post_markdown_to_api_def split: option.splits)

lemma save_markdown_not_written:
  "\<not> (save \<or> \<not> up) \<Longrightarrow> files (snd (save_markdown ev arr out enc up save w)) = files w"
  by (simp add: save_markdown_def Let_def post_keeps_files)

lemma save_markdown_written:
  assumes "save \<or> \<not> up" "open_w ev out enc = None"
  shows "files (snd (save_markdown ev arr out enc up save w)) =
           (files w)(out \<mapsto> encode_replace ev enc (join CHR 0x0A arr))"
  using assms by (auto simp: save_markdown_def Let_def post_keeps_files)

lemma post_encodable:
  "post_markdown_to_api (ev\<lparr>encodable := f\<rparr>) d n w = post_markdown_to_api ev d n w"
  by (simp add: post_markdown_to_api_def get_secret_from_env_def)

lemma save_markdown_encodable:
  "fst (save_markdown (ev\<lparr>encodable := f\<rparr>) arr out enc up save w) =
   fst (save_markdown ev arr out enc up save w)"
  by (auto simp: save_markdown_def Let_def post_markdown_to_api_def get_secret_from_env_def
      split: option.splits)

lemma save_markdown_upload_fails:
  assumes "up" "\<not> save"
    and "requests_post ev (NOTEPM_SECRET ev) (basename out) (join CHR 0x0A arr) = Some RequestException"
  shows "save_markdown ev arr out enc up save w =
           (Inr (), w\<lparr>log := log w @ [Error_posting (basename out) RequestException]\<rparr>)"
  using assms
  by (simp add: save_markdown_def Let_def post_markdown_to_api_def get_secret_from_env_def)

lemma loop_after_failed_upload:
  assumes "read_excel ev xls nm None = Inr df"
    and "requests_post ev (NOTEPM_SECRET ev) (basename (out @ ''_'' @ nm))
           (join CHR 0x0A (convert_to_markdown_array (tabulate ev) df)) = Some RequestException"
  shows "sheets_loop ev xls out enc True False (\<lparr>sheet = Name nm, range_str = []\<rparr> # sps) w =
         sheets_loop ev xls out enc True False sps
           (w\<lparr>log := log w @ [Error_posting (basename (out @ ''_'' @ nm)) RequestException]\<rparr>)"
proof -
  have "save_markdown ev (convert_to_markdown_array (tabulate ev) df) (out @ ''_'' @ nm) enc True False w =
      (Inr (), w\<lparr>log := log w @ [Error_posting (basename (out @ ''_'' @ nm)) RequestException]\<rparr>)"
    using assms(2) by (intro save_markdown_upload_fails) auto
  then have "sheet_iteration ev xls out enc True False \<lparr>sheet = Name nm, range_str = []\<rparr> w =
      (Inr (), w\<lparr>log := log w @ [Error_posting (basename (out @ ''_'' @ nm)) RequestException]\<rparr>)"
    using assms(1) by (simp add: sheet_iteration_def sheet_body_def)
  then show ?thesis by simp
qed

text \<open>
  Claim C4.  The sink leaves the files alone when \<open>upload\<close> is set and
  \<open>save_as_file\<close> is not; otherwise, once the file can be opened, it writes the
  joined text, with a placeholder for every character the encoding lacks.
  Whether the call raises does not depend on which characters the encoding can
  represent.  When \<open>upload\<close> is set, \<open>save_as_file\<close> is not, and the request
  fails, the call returns normally, writes no file and only adds an error to
  the log; the loop over the sheets goes on with the next sheet.
\<close>

theorem sink_contract:
  "(\<not> (save \<or> \<not> up) \<longrightarrow> files (snd (save_markdown ev arr out enc up save w)) = files w) \<and>
   ((save \<or> \<not> up) \<and> open_w ev out enc = None \<longrightarrow>
      files (snd (save_markdown ev arr out enc up save w)) =
        (files w)(out \<mapsto> encode_replace ev enc (join CHR 0x0A arr))) \<and>
   fst (save_markdown (ev\<lparr>encodable := f\<rparr>) arr out enc up save w) =
     fst (save_markdown ev arr out enc up save w) \<and>
   (up \<and> \<not> save \<and>
    requests_post ev (NOTEPM_SECRET ev) (basename out) (join CHR 0x0A arr) = Some RequestException \<longrightarrow>
      save_markdown ev arr out enc up save w =
        (Inr (), w\<lparr>log := log w @ [Error_posting (basename out) RequestException]\<rparr>)) \<and>
   (read_excel ev xls nm None = Inr df \<and>
    requests_post ev (NOTEPM_SECRET ev) (basename (base @ ''_'' @ nm))
      (join CHR 0x0A (convert_to_markdown_array (tabulate ev) df)) = Some RequestException \<longrightarrow>
      sheets_loop ev xls base enc True False (\<lparr>sheet = Name nm, range_str = []\<rparr> # sps) w =
      sheets_loop ev xls base enc True False sps
        (w\<lparr>log := log w @ [Error_posting (basename (base @ ''_'' @ nm)) RequestException]\<rparr>))"
  using save_markdown_not_written[where save=save and up=up and ev=ev and arr=arr and out=out and enc=enc and w=w]
    save_markdown_written[where save=save and up=up and ev=ev and arr=arr and out=out and enc=enc and w=w]
    save_markdown_encodable[where f=f and save=save and up=up and ev=ev and arr=arr and out=out and enc=enc and w=w]
    save_markdown_upload_fails[where save=save and up=up and ev=ev and arr=arr and out=out and enc=enc and w=w]
    loop_after_failed_upload[where ev=ev and xls=xls and nm=nm and df=df and out=base and enc=enc and sps=sps and w=w]
  by blast

theorem sink_contract_witness:
  "files (snd (save_markdown sample_env [''|h|'', ''|zoo|''] ''d/out_S1'' ''ascii'' True False empty_world)) = Map.empty \<and>
   files (snd (save_markdown sample_env [''|h|'', ''|zoo|''] ''d/out_S1'' ''ascii'' True True empty_world)) ''d/out_S1''
     = Some [CHR ''|'', CHR ''h'', CHR ''|'', CHR 0x0A, CHR ''|'', CHR ''?'', CHR ''o'', CHR ''o'', CHR ''|''] \<and>
   save_markdown sample_env [''|h|'', ''|zoo|''] ''d/out_S1'' ''ascii'' True False empty_world =
     (Inr (), empty_world\<lparr>log := [Error_posting ''out_S1'' RequestException]\<rparr>) \<and>
   sheets_loop sample_env sample_workbook ''out'' ''ascii'' True False
       [\<lparr>sheet = Name ''S1'', range_str = []\<rparr>, \<lparr>sheet = Name ''S2'', range_str = []\<rparr>] empty_world =
     (Inr (), empty_world\<lparr>log := [Error_posting ''out_S1'' RequestException,
                                     Error_posting ''out_S2'' RequestException]\<rparr>)"
proof -
  let ?df = "\<lparr>columns = [Str ''h''], rows = [[Str ''S1'']]\<rparr>"
  let ?df2 = "\<lparr>columns = [Str ''h''], rows = [[Str ''S2'']]\<rparr>"
  let ?w1 = "empty_world\<lparr>log := log empty_world @ [Error_posting (basename (''out'' @ ''_'' @ ''S1'')) RequestException]\<rparr>"
  have a: "read_excel sample_env sample_workbook ''S1'' None = Inr ?df"
    "read_excel sample_env sample_workbook ''S2'' None = Inr ?df2"
    "open_w sample_env ''d/out_S1'' ''ascii'' = None"
    "\<And>t c. requests_post sample_env (NOTEPM_SECRET sample_env) t c = Some RequestException"
    by (simp_all add: sample_env_def sample_workbook_def)
  have b: "basename ''d/out_S1'' = ''out_S1''" "basename (''out'' @ ''_'' @ ''S1'') = ''out_S1''"
    "basename (''out'' @ ''_'' @ ''S2'') = ''out_S2''"
    by (simp_all add: basename_def)
  have e: "encode_replace sample_env ''ascii'' (join CHR 0x0A [''|h|'', ''|zoo|'']) =
      [CHR ''|'', CHR ''h'', CHR ''|'', CHR 0x0A, CHR ''|'', CHR ''?'', CHR ''o'', CHR ''o'', CHR ''|'']"
    by (simp add: encode_replace_def sample_env_def)
  have l: "log empty_world = []" "files empty_world = Map.empty" by (simp_all add: empty_world_def)
  note s1 = sink_contract[where save=False and up=True and ev=sample_env and arr="[''|h|'', ''|zoo|'']"
      and out="''d/out_S1''" and enc="''ascii''" and w=empty_world and f="\<lambda>enc c. True"
      and xls=sample_workbook and nm="''S1''" and df="?df" and base="''out''"
      and sps="[\<lparr>sheet = Name ''S2'', range_str = []\<rparr>]"]
  note s2 = sink_contract[where save=True and up=True and ev=sample_env and arr="[''|h|'', ''|zoo|'']"
      and out="''d/out_S1''" and enc="''ascii''" and w=empty_world and f="\<lambda>enc c. True"
      and xls=sample_workbook and nm="''S1''" and df="?df" and base="''out''" and sps="[]"]
  note s3 = sink_contract[where save=False and up=True and ev=sample_env and arr="[]"
      and out="''out''" and enc="''ascii''" and w="?w1" and f="\<lambda>enc c. True"
      and xls=sample_workbook and nm="''S2''" and df="?df2" and base="''out''" and sps="[]"]
  have c1: "files (snd (save_markdown sample_env [''|h|'', ''|zoo|''] ''d/out_S1'' ''ascii'' True False empty_world)) = Map.empty"
    using s1 by (simp add: l)
  have c2: "files (snd (save_markdown sample_env [''|h|'', ''|zoo|''] ''d/out_S1'' ''ascii'' True True empty_world)) ''d/out_S1''
     = Some [CHR ''|'', CHR ''h'', CHR ''|'', CHR 0x0A, CHR ''|'', CHR ''?'', CHR ''o'', CHR ''o'', CHR ''|'']"
    using s2 a(3) e by simp
  have c3: "save_markdown sample_env [''|h|'', ''|zoo|''] ''d/out_S1'' ''ascii'' True False empty_world =
     (Inr (), empty_world\<lparr>log := [Error_posting ''out_S1'' RequestException]\<rparr>)"
    using s1 a(4) b(1) by (simp add: l)
  have c4: "sheets_loop sample_env sample_workbook ''out'' ''ascii'' True False
          [\<lparr>sheet = Name ''S1'', range_str = []\<rparr>, \<lparr>sheet = Name ''S2'', range_str = []\<rparr>] empty_world =
        (Inr (), empty_world\<lparr>log := [Error_posting ''out_S1'' RequestException, Error_posting ''out_S2'' RequestException]\<rparr>)"
  proof -
    have "sheets_loop sample_env sample_workbook ''out'' ''ascii'' True False
          [\<lparr>sheet = Name ''S1'', range_str = []\<rparr>, \<lparr>sheet = Name ''S2'', range_str = []\<rparr>] empty_world =
        sheets_loop sample_env sample_workbook ''out'' ''ascii'' True False
          [\<lparr>sheet = Name ''S2'', range_str = []\<rparr>] ?w1"
      using s1 a(1,4) by blast
    also have "\<dots> = sheets_loop sample_env sample_workbook ''out'' ''ascii'' True False []
        (?w1\<lparr>log := log ?w1 @ [Error_posting (basename (''out'' @ ''_'' @ ''S2'')) RequestException]\<rparr>)"
      using s3 a(2,4) by blast
    finally show ?thesis unfolding b by (simp add: l)
  qed
  show ?thesis using c1 c2 c3 c4 by simp
qed

section \<open>The batch driver and failing sheets\<close>

lemma sheet_iteration_caught:
  assumes "XLRDError_defined ev"
    and "sheet_body ev xls out enc up save sp w = (Inl (e, nm), w1)"
  shows "sheet_iteration ev xls out enc up save sp w =
     (Inr (), w1\<lparr>log := log w1 @
        [if e = XLRDError then Error_reading_sheet nm e
         else if e = MemoryError then Error_memory nm
         else Error_sheet_unexpected nm e]\<rparr>)"
  using assms by (simp add: sheet_iteration_def sheet_handlers_def)

lemma sheet_iteration_passed:
  assumes "sheet_body ev xls out enc up save sp w = (Inr (), w1)"
  shows "sheet_iteration ev xls out enc up save sp w = (Inr (), w1)"
  using assms by (simp add: sheet_iteration_def)

lemma sheet_iteration_returns:
  assumes "XLRDError_defined ev"
  shows "fst (sheet_iteration ev xls out enc up save sp w) = Inr ()"
proof (cases "sheet_body ev xls out enc up save sp w")
  case (Pair r w1)
  then show ?thesis using assms
    by (cases r) (auto simp: sheet_iteration_def sheet_handlers_def)
qed

lemma sheets_loop_fold:
  assumes "XLRDError_defined ev"
  shows "sheets_loop ev xls out enc up save sheets w =
     (Inr (), foldl (\<lambda>w0 sp. snd (sheet_iteration ev xls out enc up save sp w0)) w sheets)"
proof (induction sheets arbitrary: w)
  case Nil
  then show ?case by simp
next
  case (Cons sp sps)
  obtain w1 where "sheet_iteration ev xls out enc up save sp w = (Inr (), w1)"
    using sheet_iteration_returns[OF assms, of xls out enc up save sp w]
    by (cases "sheet_iteration ev xls out enc up save sp w") auto
  then show ?case using Cons.IH[of w1] by simp
qed

lemma process_returns:
  "fst (process_excel_to_markdown ev inp out sheets enc up save w) = Inr ()"
  by (simp add: process_excel_to_markdown_def split: sum.splits prod.splits)

lemma process_open_fails:
  assumes "ExcelFile ev inp = Inl e"
  shows "process_excel_to_markdown ev inp out sheets enc up save w =
     (Inr (), w\<lparr>log := log w @
        [if e = FileNotFoundError then Error_file_not_found else Error_unexpected e]\<rparr>)"
  using assms by (simp add: process_excel_to_markdown_def)

lemma process_open_succeeds:
  assumes "XLRDError_defined ev" "ExcelFile ev inp = Inr xls"
  shows "process_excel_to_markdown ev inp out sheets enc up save w =
     (Inr (), foldl (\<lambda>w0 sp. snd (sheet_iteration ev xls out enc up save sp w0)) w sheets)"
  using assms by (simp add: process_excel_to_markdown_def sheets_loop_fold)

lemma sheets_loop_append:
  "sheets_loop ev xls out enc up save (pre @ rest) w =
     (case sheets_loop ev xls out enc up save pre w of
        (Inl e, wp) \<Rightarrow> (Inl e, wp)
      | (Inr u, wp) \<Rightarrow> sheets_loop ev xls out enc up save rest wp)"
  by (induction pre arbitrary: w) (auto split: prod.splits sum.splits)

lemma sheet_iteration_uncaught:
  assumes "\<not> XLRDError_defined ev"
    and "sheet_body ev xls out enc up save sp w = (Inl (e, nm), wa)"
  shows "sheet_iteration ev xls out enc up save sp w = (Inl AttributeError, wa)"
  using assms by (simp add: sheet_iteration_def sheet_handlers_def)

text \<open>
  Claim C1 fails on the code.  The claim: an exception raised while one sheet
  is processed is caught and logged, and the driver goes on with the next
  sheet.  The code: where \<open>pd.errors.XLRDError\<close> does not exist, matching the
  first handler of the sheet loop raises \<open>AttributeError\<close> in place of the
  sheet's exception; the outer handler catches it, logs one error and the
  driver returns.  The sheets after the first failing one are not processed.
\<close>

theorem batch_stops_at_first_failure:
  "\<not> XLRDError_defined ev \<and> ExcelFile ev inp = Inr xls \<and>
   sheets_loop ev xls out enc up save pre w = (Inr (), wp) \<and>
   sheet_body ev xls out enc up save sp wp = (Inl (e, nm), wa) \<longrightarrow>
     process_excel_to_markdown ev inp out (pre @ sp # sps) enc up save w =
       (Inr (), wa\<lparr>log := log wa @ [Error_unexpected AttributeError]\<rparr>)"
proof (intro impI)
  assume a: "\<not> XLRDError_defined ev \<and> ExcelFile ev inp = Inr xls \<and>
   sheets_loop ev xls out enc up save pre w = (Inr (), wp) \<and>
   sheet_body ev xls out enc up save sp wp = (Inl (e, nm), wa)"
  then have "sheet_iteration ev xls out enc up save sp wp = (Inl AttributeError, wa)"
    using sheet_iteration_uncaught by blast
  then have "sheets_loop ev xls out enc up save (pre @ sp # sps) w = (Inl AttributeError, wa)"
    using a by (simp add: sheets_loop_append)
  then show "process_excel_to_markdown ev inp out (pre @ sp # sps) enc up save w =
       (Inr (), wa\<lparr>log := log wa @ [Error_unexpected AttributeError]\<rparr>)"
    using a by (simp add: process_excel_to_markdown_def)
qed

theorem batch_stops_at_first_failure_witness:
  "process_excel_to_markdown stock_env ''book.xlsx'' ''out''
     [\<lparr>sheet = Name ''S1'', range_str = []\<rparr>, \<lparr>sheet = Name ''bad'', range_str = []\<rparr>,
      \<lparr>sheet = Name ''S3'', range_str = []\<rparr>] ''utf-8'' False False empty_world =
   (Inr (),
    \<lparr>files = [''out_S1'' \<mapsto> [CHR ''|'', CHR ''h'', CHR ''|'', CHR 0x0A, CHR ''|'', CHR ''S'', CHR ''1'', CHR ''|'']],
     posts = [],
     log = [Info_saved ''out_S1'' ''utf-8'', Error_unexpected AttributeError]\<rparr>) \<and>
   sheet_body stock_env sample_workbook ''out'' ''utf-8'' False False
     \<lparr>sheet = Name ''S3'', range_str = []\<rparr> empty_world =
   (Inr (),
    \<lparr>files = [''out_S3'' \<mapsto> [CHR ''|'', CHR ''h'', CHR ''|'', CHR 0x0A, CHR ''|'', CHR ''S'', CHR ''3'', CHR ''|'']],
     posts = [], log = [Info_saved ''out_S3'' ''utf-8'']\<rparr>)"
proof -
  let ?w1 = "\<lparr>files = [''out_S1'' \<mapsto> [CHR ''|'', CHR ''h'', CHR ''|'', CHR 0x0A, CHR ''|'', CHR ''S'', CHR ''1'', CHR ''|'']],
     posts = [], log = [Info_saved ''out_S1'' ''utf-8'']\<rparr>"
  have env: "\<not> XLRDError_defined stock_env" "ExcelFile stock_env ''book.xlsx'' = Inr sample_workbook"
    by (simp_all add: stock_env_def sample_env_def)
  have pre: "sheets_loop stock_env sample_workbook ''out'' ''utf-8'' False False
      [\<lparr>sheet = Name ''S1'', range_str = []\<rparr>] empty_world = (Inr (), ?w1)"
    by (simp add: sheet_iteration_def sheet_body_def stock_env_def sample_env_def
        sample_workbook_def save_markdown_def convert_to_markdown_array_def
        clean_markdown_lines_def escape_newlines_def fillna_def applymap_def escape_cell_def
        fill_cell_def replace_newline_def sample_row_def strip_def isspace_def
        encode_replace_def empty_world_def Let_def)
  have bad: "sheet_body stock_env sample_workbook ''out'' ''utf-8'' False False
      \<lparr>sheet = Name ''bad'', range_str = []\<rparr> ?w1 = (Inl (ValueError, Name ''bad''), ?w1)"
    by (simp add: sheet_body_def stock_env_def sample_env_def sample_workbook_def)
  have s3: "sheet_body stock_env sample_workbook ''out'' ''utf-8'' False False
     \<lparr>sheet = Name ''S3'', range_str = []\<rparr> empty_world =
   (Inr (),
    \<lparr>files = [''out_S3'' \<mapsto> [CHR ''|'', CHR ''h'', CHR ''|'', CHR 0x0A, CHR ''|'', CHR ''S'', CHR ''3'', CHR ''|'']],
     posts = [], log = [Info_saved ''out_S3'' ''utf-8'']\<rparr>)"
    by (simp add: sheet_body_def stock_env_def sample_env_def
        sample_workbook_def save_markdown_def convert_to_markdown_array_def
        clean_markdown_lines_def escape_newlines_def fillna_def applymap_def escape_cell_def
        fill_cell_def replace_newline_def sample_row_def strip_def isspace_def
        encode_replace_def empty_world_def Let_def)
  note t = batch_stops_at_first_failure[where ev=stock_env and inp="''book.xlsx''"
      and xls=sample_workbook and out="''out''" and enc="''utf-8''" and up=False and save=False
      and pre="[\<lparr>sheet = Name ''S1'', range_str = []\<rparr>]" and w=empty_world and wp="?w1"
      and sp="\<lparr>sheet = Name ''bad'', range_str = []\<rparr>" and e=ValueError and nm="Name ''bad''"
      and wa="?w1" and sps="[\<lparr>sheet = Name ''S3'', range_str = []\<rparr>]"]
  show ?thesis using t env pre bad s3 by simp
qed

section \<open>Resolution of numeric sheet specifications\<close>

lemma py_index_error:
  "py_index xs j = Inl IndexError \<longleftrightarrow> int (length xs) \<le> j \<or> j < - int (length xs)"
  by (auto simp: py_index_def Let_def)

lemma py_index_front:
  "0 \<le> j \<Longrightarrow> j < int (length xs) \<Longrightarrow> py_index xs j = Inr (xs ! nat j)"
  by (simp add: py_index_def Let_def)

lemma py_index_back:
  "- int (length xs) \<le> j \<Longrightarrow> j < 0 \<Longrightarrow> py_index xs j = Inr (xs ! nat (int (length xs) + j))"
  by (simp add: py_index_def Let_def)

lemma py_index_last: "xs \<noteq> [] \<Longrightarrow> py_index xs (- 1) = Inr (last xs)"
proof -
  assume a: "xs \<noteq> []"
  then have "nat (int (length xs) + - 1) = length xs - 1" "length xs \<ge> 1"
    by (cases xs; simp)+
  then show ?thesis using a by (simp add: py_index_def Let_def last_conv_nth)
qed

lemma sheet_body_index_error:
  assumes "py_index (sheet_names xls) (i - 1) = Inl IndexError"
  shows "sheet_body ev xls out enc up save \<lparr>sheet = Index i, range_str = r\<rparr> w =
           (Inl (IndexError, Index i), w)"
  using assms by (simp add: sheet_body_def)

lemma sheet_body_index_name:
  assumes "py_index (sheet_names xls) (i - 1) = Inr nm"
  shows "sheet_body ev xls out enc up save \<lparr>sheet = Index i, range_str = r\<rparr> w =
         sheet_body ev xls out enc up save \<lparr>sheet = Name nm, range_str = r\<rparr> w"
  using assms by (simp add: sheet_body_def)

lemma digit_val_nonneg: "is_decimal c \<Longrightarrow> 0 \<le> digit_val c"
  by (auto simp: is_decimal_def digit_val_def)

lemma dec_fold_nonneg:
  "\<forall>c\<in>set ds. is_decimal c \<Longrightarrow> 0 \<le> a \<Longrightarrow> 0 \<le> foldl (\<lambda>n c. 10 * n + digit_val c) a ds"
  by (induction ds arbitrary: a) (auto simp: digit_val_nonneg)

lemma dec_nonneg: "\<forall>c\<in>set ds. is_decimal c \<Longrightarrow> 0 \<le> dec ds"
  by (simp add: dec_def dec_fold_nonneg)

lemma py_int_nonneg:
  assumes "py_int s = Inr n" "CHR ''-'' \<notin> set s"
  shows "0 \<le> n"
proof -
  define t where "t = rev (dropWhile int_space (rev (dropWhile int_space s)))"
  define ds where "ds = (if t \<noteq> [] \<and> (hd t = CHR ''-'' \<or> hd t = CHR ''+'') then tl t else t)"
  have "set t \<subseteq> set s"
  proof -
    have "set (dropWhile int_space (rev (dropWhile int_space s))) \<subseteq> set (rev (dropWhile int_space s))"
      using set_dropWhileD by fastforce
    also have "\<dots> \<subseteq> set s" using set_dropWhileD by fastforce
    finally show ?thesis by (simp add: t_def)
  qed
  then have noneg: "\<not> (t \<noteq> [] \<and> hd t = CHR ''-'')" using assms(2) hd_in_set by fastforce
  have ok: "int_digits ds" and n: "n = dec (filter (\<lambda>c. c \<noteq> CHR ''_'') ds)"
    using assms(1) noneg unfolding py_int_def Let_def t_def[symmetric] ds_def[symmetric]
    by (auto split: if_splits)
  have "\<forall>c\<in>set (filter (\<lambda>c. c \<noteq> CHR ''_'') ds). is_decimal c"
    using int_digits_chars[OF ok] by auto
  then show ?thesis using n dec_nonneg by simp
qed

lemma number_item_nonneg:
  assumes "number_item item = Inr ns"
  shows "\<forall>n\<in>set ns. 0 \<le> n"
proof (cases "CHR ''-'' \<in> set item")
  case False
  then show ?thesis using assms py_int_nonneg[of item]
    by (auto simp: number_item_def split: sum.splits)
next
  case True
  then obtain a b start end_n where sp: "split CHR ''-'' item = [a, b]"
    and pa: "py_int a = Inr start" and ns: "ns = [start..end_n]"
    using assms
    by (auto simp: number_item_def split: list.splits sum.splits)
  have "CHR ''-'' \<notin> set a" using sp split_no_sep[of a "CHR ''-''" item] by simp
  then have "0 \<le> start" using pa py_int_nonneg by blast
  then show ?thesis using ns by auto
qed

lemma numbers_loop_nonneg:
  "numbers_loop acc items = Inr ns \<Longrightarrow> \<forall>n\<in>set acc. 0 \<le> n \<Longrightarrow> \<forall>n\<in>set ns. 0 \<le> n"
proof (induction items arbitrary: acc)
  case Nil
  then show ?case by simp
next
  case (Cons item items)
  then obtain ms where m: "number_item item = Inr ms" "numbers_loop (acc @ ms) items = Inr ns"
    by (auto split: sum.splits)
  then have "\<forall>n\<in>set (acc @ ms). 0 \<le> n" using Cons.prems(2) number_item_nonneg by auto
  then show ?case using Cons.IH[OF m(2)] by blast
qed

lemma parse_sheet_numbers_nonneg:
  assumes "parse_sheet_numbers s = Inr specs" "sp \<in> set specs"
  shows "\<exists>i. 0 \<le> i \<and> sp = \<lparr>sheet = Index i, range_str = []\<rparr>"
proof -
  obtain ns where "numbers_loop [] (split CHR '','' s) = Inr ns"
    and "specs = map (\<lambda>n. \<lparr>sheet = Index n, range_str = []\<rparr>) ns"
    using assms(1) by (auto simp: parse_sheet_numbers_def split: sum.splits)
  then show ?thesis using numbers_loop_nonneg[of "[]"] assms(2) by auto
qed

text \<open>
  Claim C10, as amended.  The driver resolves an integer sheet specification \<open>i\<close>
  by the Python index \<open>i - 1\<close> into the list of sheet names, and goes on as if
  that name had been given.  So \<open>i = 0\<close> selects the last sheet, a negative \<open>i\<close>
  above minus the number of sheets selects a sheet counted from the end, and
  \<open>IndexError\<close> is raised exactly when \<open>i\<close> is greater than the number of sheets
  or at most minus that number.  The indices that \<open>parse_sheet_numbers\<close> returns
  are never negative.
\<close>

theorem numeric_resolution:
  "(sheet_body ev xls out enc up save \<lparr>sheet = Index i, range_str = r\<rparr> w =
      (case py_index (sheet_names xls) (i - 1) of
         Inl e \<Rightarrow> (Inl (e, Index i), w)
       | Inr nm \<Rightarrow> sheet_body ev xls out enc up save \<lparr>sheet = Name nm, range_str = r\<rparr> w)) \<and>
   (py_index (sheet_names xls) (i - 1) = Inl IndexError \<longleftrightarrow>
      int (length (sheet_names xls)) < i \<or> i \<le> - int (length (sheet_names xls))) \<and>
   (1 \<le> i \<and> i \<le> int (length (sheet_names xls)) \<longrightarrow>
      py_index (sheet_names xls) (i - 1) = Inr (sheet_names xls ! nat (i - 1))) \<and>
   (- int (length (sheet_names xls)) < i \<and> i \<le> 0 \<longrightarrow>
      py_index (sheet_names xls) (i - 1) =
        Inr (sheet_names xls ! nat (int (length (sheet_names xls)) + i - 1))) \<and>
   (sheet_names xls \<noteq> [] \<longrightarrow> py_index (sheet_names xls) (0 - 1) = Inr (last (sheet_names xls))) \<and>
   (parse_sheet_numbers s = Inr specs \<and> sp \<in> set specs \<longrightarrow>
      (\<exists>j. 0 \<le> j \<and> sp = \<lparr>sheet = Index j, range_str = []\<rparr>))"
proof (intro conjI impI)
  show "sheet_body ev xls out enc up save \<lparr>sheet = Index i, range_str = r\<rparr> w =
      (case py_index (sheet_names xls) (i - 1) of
         Inl e \<Rightarrow> (Inl (e, Index i), w)
       | Inr nm \<Rightarrow> sheet_body ev xls out enc up save \<lparr>sheet = Name nm, range_str = r\<rparr> w)"
    by (simp add: sheet_body_def split: sum.splits)
  show "py_index (sheet_names xls) (i - 1) = Inl IndexError \<longleftrightarrow>
      int (length (sheet_names xls)) < i \<or> i \<le> - int (length (sheet_names xls))"
    unfolding py_index_error by linarith
  show "py_index (sheet_names xls) (i - 1) = Inr (sheet_names xls ! nat (i - 1))"
    if "1 \<le> i \<and> i \<le> int (length (sheet_names xls))"
    using that by (simp add: py_index_front)
  show "py_index (sheet_names xls) (i - 1) =
        Inr (sheet_names xls ! nat (int (length (sheet_names xls)) + i - 1))"
    if "- int (length (sheet_names xls)) < i \<and> i \<le> 0"
    using that py_index_back[of "sheet_names xls" "i - 1"] by (simp add: algebra_simps)
  show "py_index (sheet_names xls) (0 - 1) = Inr (last (sheet_names xls))"
    if "sheet_names xls \<noteq> []"
    using that by (simp add: py_index_last)
  show "\<exists>j. 0 \<le> j \<and> sp = \<lparr>sheet = Index j, range_str = []\<rparr>"
    if "parse_sheet_numbers s = Inr specs \<and> sp \<in> set specs"
    using that parse_sheet_numbers_nonneg by blast
qed

theorem numeric_resolution_witness:
  "sheet_body sample_env sample_workbook ''out'' ''utf-8'' False False
     \<lparr>sheet = Index 0, range_str = []\<rparr> empty_world =
   sheet_body sample_env sample_workbook ''out'' ''utf-8'' False False
     \<lparr>sheet = Name ''S3'', range_str = []\<rparr> empty_world \<and>
   py_index (sheet_names sample_workbook) (0 - 1) = Inr ''S3'' \<and>
   py_index (sheet_names sample_workbook) (2 - 1) = Inr ''S2'' \<and>
   py_index (sheet_names sample_workbook) (- 1 - 1) = Inr ''S2'' \<and>
   py_index (sheet_names sample_workbook) (4 - 1) = Inl IndexError \<and>
   sheet_body sample_env sample_workbook ''out'' ''utf-8'' False False
     \<lparr>sheet = Index 4, range_str = []\<rparr> empty_world = (Inl (IndexError, Index 4), empty_world) \<and>
   parse_sheet_numbers ''0,4'' =
     Inr [\<lparr>sheet = Index 0, range_str = []\<rparr>, \<lparr>sheet = Index 4, range_str = []\<rparr>] \<and>
   (\<exists>j. 0 \<le> j \<and> \<lparr>sheet = Index 4, range_str = []\<rparr> = \<lparr>sheet = Index j, range_str = []\<rparr>)"
proof -
  have n: "sheet_names sample_workbook = [''S1'', ''S2'', ''S3'']" by (simp add: sample_workbook_def)
  note r0 = numeric_resolution[where ev=sample_env and xls=sample_workbook and out="''out''"
      and enc="''utf-8''" and up=False and save=False and i=0 and r="[]" and w=empty_world]
  note r2 = numeric_resolution[where ev=sample_env and xls=sample_workbook and out="''out''"
      and enc="''utf-8''" and up=False and save=False and i=2 and r="[]" and w=empty_world]
  note rm = numeric_resolution[where ev=sample_env and xls=sample_workbook and out="''out''"
      and enc="''utf-8''" and up=False and save=False and i="- 1" and r="[]" and w=empty_world]
  have ps: "parse_sheet_numbers ''0,4'' =
     Inr [\<lparr>sheet = Index 0, range_str = []\<rparr>, \<lparr>sheet = Index 4, range_str = []\<rparr>]"
    by (simp add: parse_sheet_numbers_def number_item_def py_int_def int_space_def is_decimal_def
        dec_def digit_val_def)
  note r4 = numeric_resolution[where ev=sample_env and xls=sample_workbook and out="''out''"
      and enc="''utf-8''" and up=False and save=False and i=4 and r="[]" and w=empty_world
      and s="''0,4''"
      and specs="[\<lparr>sheet = Index 0, range_str = []\<rparr>, \<lparr>sheet = Index 4, range_str = []\<rparr>]"
      and sp="\<lparr>sheet = Index 4, range_str = []\<rparr>"]
  have nn: "\<exists>j. 0 \<le> j \<and> \<lparr>sheet = Index 4, range_str = []\<rparr> = \<lparr>sheet = Index j, range_str = []\<rparr>"
    using r4 ps by simp
  have a0: "py_index (sheet_names sample_workbook) (0 - 1) = Inr ''S3''"
    using r0 by (simp add: n)
  have a2: "py_index (sheet_names sample_workbook) (2 - 1) = Inr ''S2''"
    using r2 by (simp add: n)
  have am: "py_index (sheet_names sample_workbook) (- 1 - 1) = Inr ''S2''"
    using rm by (simp add: n)
  have a4: "py_index (sheet_names sample_workbook) (4 - 1) = Inl IndexError"
    using r4 by (simp add: n)
  have b0: "sheet_body sample_env sample_workbook ''out'' ''utf-8'' False False
     \<lparr>sheet = Index 0, range_str = []\<rparr> empty_world =
   sheet_body sample_env sample_workbook ''out'' ''utf-8'' False False
     \<lparr>sheet = Name ''S3'', range_str = []\<rparr> empty_world"
    using r0 a0 by simp
  have b4: "sheet_body sample_env sample_workbook ''out'' ''utf-8'' False False
     \<lparr>sheet = Index 4, range_str = []\<rparr> empty_world = (Inl (IndexError, Index 4), empty_world)"
    using r4 a4 by simp
  show ?thesis using a0 a2 am a4 b0 b4 ps nn by simp
qed

text \<open>
  The claim as stated does not hold: with three sheets the index \<open>-3\<close>, which is
  not greater than the number of sheets, raises \<open>IndexError\<close>.
\<close>

theorem numeric_resolution_counterexample:
  "sheet_body sample_env sample_workbook ''out'' ''utf-8'' False False
     \<lparr>sheet = Index (- 3), range_str = []\<rparr> empty_world = (Inl (IndexError, Index (- 3)), empty_world) \<and>
   length (sheet_names sample_workbook) = 3 \<and> \<not> (3 < (- 3 :: int))"
  by (simp add: sheet_body_def py_index_def sample_workbook_def)

end
